theory Spec2Isabelle
  imports Complex_Main
begin

section \<open>Common conventions\<close>

text \<open>
  Python \<open>str\<close> values are modelled as \<open>string\<close> holding the UTF-8 bytes of the text:
  concatenation and equality of Python strings are concatenation and equality of their
  encodings, and the empty string (falsy in Python) is the empty list. Non-ASCII literals
  of the source are written byte by byte.

  A table of the relational store is the list of its rows in storage order. A
  \<open>SELECT ... WHERE\<close> is a \<open>filter\<close>; assigning to an attribute of a loaded row and
  flushing rewrites the row with that primary key. Columns filled by the server
  (\<open>created_at\<close>, \<open>updated_at\<close>) play no part in the operations below and are left out.
  The store is the default one of \<open>config.py\<close> (SQLite through aiosqlite), which checks
  unique indexes but does not enforce foreign keys.

  An integer the code passes to a statement must be a SQLite integer, of 64 bits with
  sign; for any other Python \<open>int\<close> the driver raises \<open>OverflowError\<close> before the
  statement runs. The model makes that check for the integers that reach the services
  from outside: the keys parsed from callback data (\<open>ticket_id\<close>, \<open>item_id\<close>) and the
  free integer arguments of the services. The arguments \<open>user_id\<close> and
  \<open>assigned_to_id\<close> are always the key of a row of \<open>users\<close> that the handler has
  loaded, and are taken as such.

  The integer primary keys are declared without \<open>sqlite_autoincrement\<close>, so the store
  gives a new row the key after the largest key of its table, or 1 in an empty table.
\<close>

type_synonym datetime = int

datatype error =
    MultipleResultsFound
  | IntegrityError
  | ValueError string
  | KeyError
  | OverflowError
  | IntegerBecomesReal

definition sqlite_integer :: "int \<Rightarrow> bool" where
  "sqlite_integer i = (- (2 ^ 63) \<le> i \<and> i < 2 ^ 63)"

text \<open>The key the store gives to a row inserted into a table with the keys \<open>ids\<close>.
  (At the largest key, \<open>2\<^sup>6\<^sup>3 - 1\<close>, SQLite would draw an unused key at random.)\<close>

fun next_rowid :: "int list \<Rightarrow> int" where
  "next_rowid [] = 1"
| "next_rowid (k # ks) = foldl max k ks + 1"

text \<open>\<open>Result.scalar_one_or_none()\<close>: no row gives \<open>None\<close>, one row gives that row,
  several rows raise \<open>MultipleResultsFound\<close>.\<close>

fun scalar_one_or_none :: "'a list \<Rightarrow> error + 'a option" where
  "scalar_one_or_none [] = Inr None"
| "scalar_one_or_none [x] = Inr (Some x)"
| "scalar_one_or_none (x # y # zs) = Inl MultipleResultsFound"

text \<open>A call goes on with the result of a step, or ends with the exception the step
  raised.\<close>

fun and_then :: "'e + 'a \<Rightarrow> ('a \<Rightarrow> 'e + 'b) \<Rightarrow> 'e + 'b" where
  "and_then (Inl e) f = Inl e"
| "and_then (Inr x) f = f x"

text \<open>Truthiness of an \<open>Optional[str]\<close>: \<open>None\<close> and the empty string are falsy.\<close>

fun truthy_str :: "string option \<Rightarrow> bool" where
  "truthy_str None = False"
| "truthy_str (Some s) = (s \<noteq> [])"

section \<open>Tickets (\<open>app/database/models.py\<close>, \<open>app/services/ticket_service.py\<close>)\<close>

datatype TicketStatus = OPEN | IN_PROGRESS | WAITING | RESOLVED | CLOSED

fun status_value :: "TicketStatus \<Rightarrow> string" where
  "status_value OPEN = ''open''"
| "status_value IN_PROGRESS = ''in_progress''"
| "status_value WAITING = ''waiting''"
| "status_value RESOLVED = ''resolved''"
| "status_value CLOSED = ''closed''"

record Ticket =
  t_id :: int
  t_ticket_number :: string
  t_user_id :: int
  t_assigned_to_id :: "int option"
  t_subject :: string
  t_description :: string
  t_status :: TicketStatus
  t_priority :: int
  t_category :: "string option"
  t_is_anonymous :: bool
  t_resolved_at :: "datetime option"

record TicketMessage =
  m_id :: int
  m_ticket_id :: int
  m_user_id :: int
  m_message :: string
  m_is_from_staff :: bool
  m_is_internal :: bool

text \<open>The part of the session the ticket service works on: both tables.\<close>

record ticket_session =
  tickets :: "Ticket list"
  ticket_messages :: "TicketMessage list"

text \<open>\<open>session.execute(select(Ticket).where(Ticket.id == ticket_id))\<close>: the driver
  refuses a \<open>ticket_id\<close> that is not a SQLite integer.\<close>

definition select_ticket :: "ticket_session \<Rightarrow> int \<Rightarrow> error + Ticket list" where
  "select_ticket s ticket_id =
     (if sqlite_integer ticket_id
      then Inr (filter (\<lambda>t. t_id t = ticket_id) (tickets s))
      else Inl OverflowError)"

text \<open>Flushing a changed ticket object rewrites the row with its primary key.\<close>

definition flush_ticket :: "Ticket \<Rightarrow> Ticket list \<Rightarrow> Ticket list" where
  "flush_ticket ticket rows = map (\<lambda>t. if t_id t = t_id ticket then ticket else t) rows"

text \<open>\<open>session.add(message); flush()\<close> for a ticket message.\<close>

definition add_message_row ::
  "ticket_session \<Rightarrow> int \<Rightarrow> int \<Rightarrow> string \<Rightarrow> bool \<Rightarrow> bool \<Rightarrow> TicketMessage" where
  "add_message_row s ticket_id user_id message is_from_staff is_internal =
     \<lparr>m_id = next_rowid (map m_id (ticket_messages s)), m_ticket_id = ticket_id,
      m_user_id = user_id,
      m_message = message, m_is_from_staff = is_from_staff, m_is_internal = is_internal\<rparr>"

text \<open>\<open>TicketService._generate_ticket_number\<close>: \<open>prefix\<close> is the reading of
  \<open>datetime.now().strftime("%Y%m")\<close> and \<open>suffix\<close> the four digits drawn by
  \<open>random.choices\<close>.\<close>

definition generate_ticket_number :: "string \<Rightarrow> string \<Rightarrow> string" where
  "generate_ticket_number prefix suffix = ''T'' @ prefix @ ''-'' @ suffix"

text \<open>\<open>TicketService.create_ticket\<close>. The first flush inserts the ticket: the driver
  refuses a priority that is not a SQLite integer, and the unique index on
  \<open>ticket_number\<close> rejects a number already stored. The second flush inserts the
  message.\<close>

definition create_ticket ::
  "ticket_session \<Rightarrow> string \<Rightarrow> string \<Rightarrow> int \<Rightarrow> string \<Rightarrow> string \<Rightarrow> string option \<Rightarrow> int \<Rightarrow> bool
     \<Rightarrow> error + (Ticket \<times> ticket_session)" where
  "create_ticket s prefix suffix user_id subject description category priority is_anonymous =
     (let ticket_number = generate_ticket_number prefix suffix
      in if \<not> sqlite_integer priority then Inl OverflowError
         else if ticket_number \<in> set (map t_ticket_number (tickets s)) then Inl IntegrityError
         else
           let ticket = \<lparr>t_id = next_rowid (map t_id (tickets s)),
                          t_ticket_number = ticket_number,
                          t_user_id = user_id, t_assigned_to_id = None, t_subject = subject,
                          t_description = description, t_status = OPEN, t_priority = priority,
                          t_category = category, t_is_anonymous = is_anonymous,
                          t_resolved_at = None\<rparr>;
               s1 = s\<lparr>tickets := tickets s @ [ticket]\<rparr>;
               message = add_message_row s1 (t_id ticket) user_id description False False;
               s2 = s1\<lparr>ticket_messages := ticket_messages s1 @ [message]\<rparr>
           in Inr (ticket, s2))"

text \<open>\<open>TicketService.get_messages\<close> with \<open>include_internal=True\<close>: the thread of a
  ticket, oldest first.\<close>

definition get_messages :: "ticket_session \<Rightarrow> int \<Rightarrow> TicketMessage list" where
  "get_messages s ticket_id = filter (\<lambda>m. m_ticket_id m = ticket_id) (ticket_messages s)"

definition status_changed_prefix :: string where
  "status_changed_prefix =
     [CHR 0xD0, CHR 0xA1, CHR 0xD1, CHR 0x82, CHR 0xD0, CHR 0xB0, CHR 0xD1, CHR 0x82,
      CHR 0xD1, CHR 0x83, CHR 0xD1, CHR 0x81, CHR 0x20, CHR 0xD0, CHR 0xB8, CHR 0xD0,
      CHR 0xB7, CHR 0xD0, CHR 0xBC, CHR 0xD0, CHR 0xB5, CHR 0xD0, CHR 0xBD, CHR 0xD1,
      CHR 0x91, CHR 0xD0, CHR 0xBD, CHR 0x3A, CHR 0x20]"

definition arrow :: string where
  "arrow = [CHR 0x20, CHR 0xE2, CHR 0x86, CHR 0x92, CHR 0x20]"

definition comment_prefix :: string where
  "comment_prefix =
     [CHR 0x0A, CHR 0x0A, CHR 0xD0, CHR 0x9A, CHR 0xD0, CHR 0xBE, CHR 0xD0, CHR 0xBC,
      CHR 0xD0, CHR 0xBC, CHR 0xD0, CHR 0xB5, CHR 0xD0, CHR 0xBD, CHR 0xD1, CHR 0x82,
      CHR 0xD0, CHR 0xB0, CHR 0xD1, CHR 0x80, CHR 0xD0, CHR 0xB8, CHR 0xD0, CHR 0xB9,
      CHR 0x3A, CHR 0x20]"

text \<open>The text of the system message of \<open>update_status\<close>.\<close>

definition status_msg :: "TicketStatus \<Rightarrow> TicketStatus \<Rightarrow> string option \<Rightarrow> string" where
  "status_msg old_status new_status comment =
     (let msg = status_changed_prefix @ status_value old_status @ arrow @ status_value new_status
      in case comment of
           None \<Rightarrow> msg
         | Some c \<Rightarrow> if c \<noteq> [] then msg @ comment_prefix @ c else msg)"

text \<open>\<open>TicketService.update_status\<close>; \<open>now\<close> is the reading of \<open>datetime.utcnow()\<close>.\<close>

definition update_status ::
  "ticket_session \<Rightarrow> datetime \<Rightarrow> int \<Rightarrow> TicketStatus \<Rightarrow> int \<Rightarrow> string option
     \<Rightarrow> error + (Ticket option \<times> ticket_session)" where
  "update_status s now ticket_id new_status user_id comment =
     (case and_then (select_ticket s ticket_id) scalar_one_or_none of
        Inl e \<Rightarrow> Inl e
      | Inr None \<Rightarrow> Inr (None, s)
      | Inr (Some ticket) \<Rightarrow>
          let old_status = t_status ticket;
              ticket1 = ticket\<lparr>t_status := new_status\<rparr>;
              ticket2 = (if new_status \<in> set [RESOLVED, CLOSED]
                         then ticket1\<lparr>t_resolved_at := Some now\<rparr> else ticket1);
              message = add_message_row s (t_id ticket2) user_id
                          (status_msg old_status new_status comment) True False
          in Inr (Some ticket2,
                  s\<lparr>tickets := flush_ticket ticket2 (tickets s),
                    ticket_messages := ticket_messages s @ [message]\<rparr>))"

text \<open>\<open>TicketService.assign_ticket\<close>\<close>

definition assign_ticket ::
  "ticket_session \<Rightarrow> int \<Rightarrow> int \<Rightarrow> error + (Ticket option \<times> ticket_session)" where
  "assign_ticket s ticket_id assigned_to_id =
     (case and_then (select_ticket s ticket_id) scalar_one_or_none of
        Inl e \<Rightarrow> Inl e
      | Inr None \<Rightarrow> Inr (None, s)
      | Inr (Some ticket) \<Rightarrow>
          let ticket1 = ticket\<lparr>t_assigned_to_id := Some assigned_to_id\<rparr>;
              ticket2 = (if t_status ticket1 = OPEN
                         then ticket1\<lparr>t_status := IN_PROGRESS\<rparr> else ticket1)
          in Inr (Some ticket2, s\<lparr>tickets := flush_ticket ticket2 (tickets s)\<rparr>))"

text \<open>\<open>TicketService.add_message\<close>: the status of a found ticket advances, and the
  message is stored whether or not a ticket was found.\<close>

definition add_message ::
  "ticket_session \<Rightarrow> int \<Rightarrow> int \<Rightarrow> string \<Rightarrow> bool \<Rightarrow> bool
     \<Rightarrow> error + (TicketMessage \<times> ticket_session)" where
  "add_message s ticket_id user_id message is_from_staff is_internal =
     (case and_then (select_ticket s ticket_id) scalar_one_or_none of
        Inl e \<Rightarrow> Inl e
      | Inr found \<Rightarrow>
          let rows = (case found of
                        None \<Rightarrow> tickets s
                      | Some ticket \<Rightarrow>
                          if is_from_staff
                          then (if t_status ticket = OPEN
                                then flush_ticket (ticket\<lparr>t_status := IN_PROGRESS\<rparr>) (tickets s)
                                else tickets s)
                          else (if t_status ticket = WAITING
                                then flush_ticket (ticket\<lparr>t_status := IN_PROGRESS\<rparr>) (tickets s)
                                else tickets s));
              msg = add_message_row s ticket_id user_id message is_from_staff is_internal
          in Inr (msg, s\<lparr>tickets := rows,
                          ticket_messages := ticket_messages s @ [msg]\<rparr>))"

subsection \<open>The handlers and keyboard around reopening (\<open>app/handlers/tickets.py\<close>,
  \<open>app/keyboards/tickets.py\<close>)\<close>

definition reopened_by_user :: string where
  "reopened_by_user =
     [CHR 0xD0, CHR 0x9F, CHR 0xD0, CHR 0xB5, CHR 0xD1, CHR 0x80, CHR 0xD0, CHR 0xB5,
      CHR 0xD0, CHR 0xBE, CHR 0xD1, CHR 0x82, CHR 0xD0, CHR 0xBA, CHR 0xD1, CHR 0x80,
      CHR 0xD1, CHR 0x8B, CHR 0xD1, CHR 0x82, CHR 0xD0, CHR 0xBE, CHR 0x20, CHR 0xD0,
      CHR 0xBF, CHR 0xD0, CHR 0xBE, CHR 0xD0, CHR 0xBB, CHR 0xD1, CHR 0x8C, CHR 0xD0,
      CHR 0xB7, CHR 0xD0, CHR 0xBE, CHR 0xD0, CHR 0xB2, CHR 0xD0, CHR 0xB0, CHR 0xD1,
      CHR 0x82, CHR 0xD0, CHR 0xB5, CHR 0xD0, CHR 0xBB, CHR 0xD0, CHR 0xB5, CHR 0xD0,
      CHR 0xBC]"

text \<open>\<open>reopen_ticket\<close>: the callback handler calls \<open>update_status\<close> with \<open>OPEN\<close> and
  commits; it reads neither the ticket nor the result.\<close>

definition reopen_ticket :: "ticket_session \<Rightarrow> datetime \<Rightarrow> int \<Rightarrow> int \<Rightarrow> error + ticket_session" where
  "reopen_ticket s now ticket_id user_id =
     (case update_status s now ticket_id OPEN user_id (Some reopened_by_user) of
        Inl e \<Rightarrow> Inl e
      | Inr (_, s') \<Rightarrow> Inr s')"

text \<open>The callback data of the buttons of \<open>TicketKeyboards.ticket_actions\<close>.\<close>

datatype callback =
    Ticket_reply int
  | Ticket_close int
  | Ticket_reopen int
  | Admin_ticket_status int
  | Admin_ticket_assign int
  | Tickets_list

definition ticket_actions :: "Ticket \<Rightarrow> bool \<Rightarrow> callback list list" where
  "ticket_actions ticket is_staff =
     (if t_status ticket \<notin> set [RESOLVED, CLOSED] then [[Ticket_reply (t_id ticket)]] else [])
     @ (if t_status ticket = RESOLVED
        then [[Ticket_close (t_id ticket), Ticket_reopen (t_id ticket)]] else [])
     @ (if is_staff
        then [[Admin_ticket_status (t_id ticket)], [Admin_ticket_assign (t_id ticket)]] else [])
     @ [[Tickets_list]]"

section \<open>Notifications (\<open>app/services/notification_service.py\<close>)\<close>

datatype UserRole = STUDENT | TEACHER | MODERATOR | ADMIN | ANONYMOUS

text \<open>\<open>UserRole(value)\<close>: the member with that value; \<open>None\<close> stands for the
  \<open>ValueError\<close> the enum raises on any other string.\<close>

definition UserRole_of_value :: "string \<Rightarrow> UserRole option" where
  "UserRole_of_value v =
     (if v = ''student'' then Some STUDENT
      else if v = ''teacher'' then Some TEACHER
      else if v = ''moderator'' then Some MODERATOR
      else if v = ''admin'' then Some ADMIN
      else if v = ''anonymous'' then Some ANONYMOUS
      else None)"

record User =
  u_id :: int
  u_telegram_id :: int
  u_role :: UserRole
  u_is_active :: bool
  u_notifications_enabled :: bool
  u_group_name :: "string option"
  u_course :: "int option"
  u_faculty :: "string option"

record Notification =
  n_title :: string
  n_message :: string
  n_target_role :: "string option"
  n_target_group :: "string option"
  n_target_course :: "int option"
  n_target_faculty :: "string option"
  n_is_sent :: bool
  n_sent_at :: "datetime option"
  n_sent_count :: int

text \<open>\<open>NotificationService.get_target_users\<close>. The query is the list of its
  \<open>where\<close> conditions, all of which a selected row satisfies; a nullable column equals
  a value only when it is not NULL.\<close>

definition get_target_users :: "User list \<Rightarrow> Notification \<Rightarrow> User list" where
  "get_target_users users notification =
     (let query = [u_is_active, u_notifications_enabled];
          query1 = (case n_target_role notification of
                      None \<Rightarrow> query
                    | Some target_role \<Rightarrow>
                        if target_role \<noteq> []
                        then (case UserRole_of_value target_role of
                                Some role \<Rightarrow> query @ [\<lambda>u. u_role u = role]
                              | None \<Rightarrow> query)
                        else query);
          query2 = (if truthy_str (n_target_group notification)
                    then query1 @ [\<lambda>u. u_group_name u = n_target_group notification]
                    else query1);
          query3 = (if n_target_course notification \<noteq> None \<and> n_target_course notification \<noteq> Some 0
                    then query2 @ [\<lambda>u. u_course u = n_target_course notification]
                    else query2);
          query4 = (if truthy_str (n_target_faculty notification)
                    then query3 @ [\<lambda>u. u_faculty u = n_target_faculty notification]
                    else query3)
      in filter (\<lambda>u. list_all (\<lambda>cond. cond u) query4) users)"

text \<open>What \<open>bot.send_message\<close> does for one chat: it returns, or raises one of the
  exceptions the loop distinguishes.\<close>

datatype send_outcome = Delivered | TelegramForbiddenError | TelegramBadRequest | OtherException

type_synonym bot = "int \<Rightarrow> string \<Rightarrow> send_outcome"

definition notification_text :: "Notification \<Rightarrow> string" where
  "notification_text notification =
     [CHR 0xF0, CHR 0x9F, CHR 0x93, CHR 0xA2, CHR 0x20, CHR 0x3C, CHR 0x62, CHR 0x3E]
     @ n_title notification
     @ [CHR 0x3C, CHR 0x2F, CHR 0x62, CHR 0x3E, CHR 0x0A, CHR 0x0A]
     @ n_message notification"

text \<open>The \<open>for user in users\<close> loop of \<open>send_notification\<close>: it returns the user
  objects as the loop leaves them, and the count of sent messages.\<close>

fun send_loop :: "bot \<Rightarrow> string \<Rightarrow> User list \<Rightarrow> int \<Rightarrow> User list \<times> int" where
  "send_loop tg text [] sent_count = ([], sent_count)"
| "send_loop tg text (user # users) sent_count =
     (case tg (u_telegram_id user) text of
        Delivered \<Rightarrow>
          (case send_loop tg text users (sent_count + 1) of (us, c) \<Rightarrow> (user # us, c))
      | TelegramForbiddenError \<Rightarrow>
          (case send_loop tg text users sent_count of
             (us, c) \<Rightarrow> (user\<lparr>u_is_active := False\<rparr> # us, c))
      | TelegramBadRequest \<Rightarrow>
          (case send_loop tg text users sent_count of (us, c) \<Rightarrow> (user # us, c))
      | OtherException \<Rightarrow>
          (case send_loop tg text users sent_count of (us, c) \<Rightarrow> (user # us, c)))"

text \<open>\<open>NotificationService.send_notification\<close>: the service's \<open>bot\<close> attribute may be
  \<open>None\<close>. The Python function returns \<open>sent_count\<close>; the model returns with it the
  target user objects and the notification as the call leaves them.\<close>

definition send_notification ::
  "bot option \<Rightarrow> datetime \<Rightarrow> User list \<Rightarrow> Notification
     \<Rightarrow> error + (int \<times> User list \<times> Notification)" where
  "send_notification the_bot now users_table notification =
     (case the_bot of
        None \<Rightarrow> Inl (ValueError ''Bot instance not provided'')
      | Some tg \<Rightarrow>
          let users = get_target_users users_table notification;
              text = notification_text notification
          in case send_loop tg text users 0 of
               (users', sent_count) \<Rightarrow>
                 Inr (sent_count, users',
                      notification\<lparr>n_is_sent := True, n_sent_at := Some now,
                                   n_sent_count := sent_count\<rparr>))"

section \<open>Dashboard summary (\<open>app/services/analytics_service.py\<close>)\<close>

text \<open>A Python number is an \<open>int\<close> or a \<open>float\<close>. The float operations the summary
  uses are arguments of the model: true division of two ints, multiplication of a float
  by an int, and \<open>round(x, ndigits)\<close>.\<close>

datatype 'f number = PyInt int | PyFloat 'f

definition change_percent ::
  "(int \<Rightarrow> int \<Rightarrow> 'f) \<Rightarrow> ('f \<Rightarrow> int \<Rightarrow> 'f) \<Rightarrow> ('f \<Rightarrow> nat \<Rightarrow> 'f) \<Rightarrow> int \<Rightarrow> int \<Rightarrow> 'f number" where
  "change_percent truediv mul round_nd today_count yesterday_count =
     (if yesterday_count > 0
      then PyFloat (round_nd (mul (truediv (today_count - yesterday_count) yesterday_count) 100) 1)
      else if today_count > 0 then PyInt 100 else PyInt 0)"

text \<open>\<open>x.scalar() or 0\<close>\<close>

fun scalar_or_0 :: "int option \<Rightarrow> int" where
  "scalar_or_0 None = 0"
| "scalar_or_0 (Some n) = n"

record 'f dashboard_summary =
  requests_today :: int
  requests_yesterday :: int
  requests_change_percent :: "'f number"
  new_users_week :: int
  active_users_week :: int

text \<open>\<open>AnalyticsService.get_dashboard_summary\<close>, from the results of its four count
  queries.\<close>

definition get_dashboard_summary ::
  "(int \<Rightarrow> int \<Rightarrow> 'f) \<Rightarrow> ('f \<Rightarrow> int \<Rightarrow> 'f) \<Rightarrow> ('f \<Rightarrow> nat \<Rightarrow> 'f)
     \<Rightarrow> int option \<Rightarrow> int option \<Rightarrow> int option \<Rightarrow> int option \<Rightarrow> 'f dashboard_summary" where
  "get_dashboard_summary truediv mul round_nd today_requests yesterday_requests new_users active_users =
     (let today_count = scalar_or_0 today_requests;
          yesterday_count = scalar_or_0 yesterday_requests
      in \<lparr>requests_today = today_count,
          requests_yesterday = yesterday_count,
          requests_change_percent = change_percent truediv mul round_nd today_count yesterday_count,
          new_users_week = scalar_or_0 new_users,
          active_users_week = scalar_or_0 active_users\<rparr>)"

text \<open>The float operations computed exactly on the rationals, with \<open>round\<close> going to
  the nearest multiple of \<open>10\<^sup>-\<^sup>n\<close> and a tie to the even one. Binary floating point
  gives the same values wherever every intermediate result is a binary fraction, as
  \<open>-5 / 10\<close>, \<open>-0.5 * 100\<close> and \<open>round(-50.0, 1)\<close> are.\<close>

definition exact_truediv :: "int \<Rightarrow> int \<Rightarrow> rat" where
  "exact_truediv a b = of_int a / of_int b"

definition exact_mul :: "rat \<Rightarrow> int \<Rightarrow> rat" where
  "exact_mul x k = x * of_int k"

definition round_half_even :: "rat \<Rightarrow> int" where
  "round_half_even x =
     (let f = \<lfloor>x\<rfloor>; d = x - of_int f
      in if d < 1 / 2 then f else if 1 / 2 < d then f + 1 else if even f then f else f + 1)"

definition exact_round :: "rat \<Rightarrow> nat \<Rightarrow> rat" where
  "exact_round x ndigits = of_int (round_half_even (x * 10 ^ ndigits)) / 10 ^ ndigits"

section \<open>FAQ items and favourites (\<open>app/services/faq_service.py\<close>)\<close>

record FAQItem =
  f_id :: int
  f_category_id :: int
  f_question :: string
  f_answer :: string
  f_keywords :: "string option"
  f_links :: "string option"
  f_views_count :: int
  f_helpful_count :: int
  f_not_helpful_count :: int
  f_order :: int
  f_is_active :: bool
  f_is_pinned :: bool

record UserFavorite =
  uf_id :: int
  uf_user_id :: int
  uf_faq_item_id :: int

record faq_session =
  faq_items :: "FAQItem list"
  favorites :: "UserFavorite list"

text \<open>A list of link dictionaries \<open>[{"text": ..., "url": ...}]\<close>; \<open>json.dumps\<close> is an
  argument of the operations that serialise one.\<close>

type_synonym links = "(string \<times> string) list"

text \<open>\<open>session.execute(select(FAQItem).where(FAQItem.id == item_id))\<close>\<close>

definition select_item :: "faq_session \<Rightarrow> int \<Rightarrow> error + FAQItem list" where
  "select_item s item_id =
     (if sqlite_integer item_id
      then Inr (filter (\<lambda>i. f_id i = item_id) (faq_items s))
      else Inl OverflowError)"

text \<open>Flushing a changed item rewrites the row that has the key the item was loaded
  with.\<close>

definition flush_item :: "int \<Rightarrow> FAQItem \<Rightarrow> FAQItem list \<Rightarrow> FAQItem list" where
  "flush_item loaded_key item rows = map (\<lambda>i. if f_id i = loaded_key then item else i) rows"

text \<open>\<open>FAQService.create_item\<close>: the counters and flags take the column defaults, and
  the driver refuses a category key or an order that is not a SQLite integer.\<close>

definition create_item ::
  "(links \<Rightarrow> string) \<Rightarrow> faq_session \<Rightarrow> int \<Rightarrow> string \<Rightarrow> string \<Rightarrow> string option
     \<Rightarrow> links option \<Rightarrow> int \<Rightarrow> error + (FAQItem \<times> faq_session)" where
  "create_item json_dumps s category_id question answer keywords links_arg order_arg =
     (if \<not> sqlite_integer category_id \<or> \<not> sqlite_integer order_arg then Inl OverflowError
      else
        let item = \<lparr>f_id = next_rowid (map f_id (faq_items s)), f_category_id = category_id,
                     f_question = question, f_answer = answer, f_keywords = keywords,
                     f_links = (case links_arg of
                                  None \<Rightarrow> None
                                | Some l \<Rightarrow> if l \<noteq> [] then Some (json_dumps l) else None),
                     f_views_count = 0, f_helpful_count = 0, f_not_helpful_count = 0,
                     f_order = order_arg, f_is_active = True, f_is_pinned = False\<rparr>
        in Inr (item, s\<lparr>faq_items := faq_items s @ [item]\<rparr>))"

text \<open>One keyword argument of \<open>update_item\<close>: the name of a column with a value of the
  column's type (\<open>links\<close> may also come as a list), the relationship \<open>category\<close> with
  the key of the category object, one of the server-filled columns, or a name the item
  has no attribute for.\<close>

datatype kwarg =
    Kw_id int
  | Kw_category_id int
  | Kw_category int
  | Kw_question string
  | Kw_answer string
  | Kw_keywords "string option"
  | Kw_links "string option"
  | Kw_links_list links
  | Kw_views_count int
  | Kw_helpful_count int
  | Kw_not_helpful_count int
  | Kw_order int
  | Kw_is_active bool
  | Kw_is_pinned bool
  | Kw_created_at datetime
  | Kw_updated_at datetime
  | Kw_no_attribute string

text \<open>\<open>if hasattr(item, key): setattr(item, key, value)\<close>, a list of links having been
  replaced by its JSON text. Assigning the relationship sets the foreign key at the
  flush; the server-filled columns are outside the columns modelled.\<close>

fun set_kwarg :: "(links \<Rightarrow> string) \<Rightarrow> FAQItem \<Rightarrow> kwarg \<Rightarrow> FAQItem" where
  "set_kwarg json_dumps item (Kw_id v) = item\<lparr>f_id := v\<rparr>"
| "set_kwarg json_dumps item (Kw_category_id v) = item\<lparr>f_category_id := v\<rparr>"
| "set_kwarg json_dumps item (Kw_category v) = item\<lparr>f_category_id := v\<rparr>"
| "set_kwarg json_dumps item (Kw_question v) = item\<lparr>f_question := v\<rparr>"
| "set_kwarg json_dumps item (Kw_answer v) = item\<lparr>f_answer := v\<rparr>"
| "set_kwarg json_dumps item (Kw_keywords v) = item\<lparr>f_keywords := v\<rparr>"
| "set_kwarg json_dumps item (Kw_links v) = item\<lparr>f_links := v\<rparr>"
| "set_kwarg json_dumps item (Kw_links_list v) = item\<lparr>f_links := Some (json_dumps v)\<rparr>"
| "set_kwarg json_dumps item (Kw_views_count v) = item\<lparr>f_views_count := v\<rparr>"
| "set_kwarg json_dumps item (Kw_helpful_count v) = item\<lparr>f_helpful_count := v\<rparr>"
| "set_kwarg json_dumps item (Kw_not_helpful_count v) = item\<lparr>f_not_helpful_count := v\<rparr>"
| "set_kwarg json_dumps item (Kw_order v) = item\<lparr>f_order := v\<rparr>"
| "set_kwarg json_dumps item (Kw_is_active v) = item\<lparr>f_is_active := v\<rparr>"
| "set_kwarg json_dumps item (Kw_is_pinned v) = item\<lparr>f_is_pinned := v\<rparr>"
| "set_kwarg json_dumps item (Kw_created_at v) = item"
| "set_kwarg json_dumps item (Kw_updated_at v) = item"
| "set_kwarg json_dumps item (Kw_no_attribute key) = item"

text \<open>The integer a keyword argument hands to the flush is a SQLite integer.\<close>

fun kwarg_fits :: "kwarg \<Rightarrow> bool" where
  "kwarg_fits (Kw_id v) = sqlite_integer v"
| "kwarg_fits (Kw_category_id v) = sqlite_integer v"
| "kwarg_fits (Kw_category v) = sqlite_integer v"
| "kwarg_fits (Kw_views_count v) = sqlite_integer v"
| "kwarg_fits (Kw_helpful_count v) = sqlite_integer v"
| "kwarg_fits (Kw_not_helpful_count v) = sqlite_integer v"
| "kwarg_fits (Kw_order v) = sqlite_integer v"
| "kwarg_fits kw = True"

text \<open>\<open>FAQService.update_item\<close>. At the flush the driver refuses an integer that is
  not a SQLite integer, and the primary key rejects a new key that another row has.\<close>

definition update_item ::
  "(links \<Rightarrow> string) \<Rightarrow> faq_session \<Rightarrow> int \<Rightarrow> kwarg list
     \<Rightarrow> error + (FAQItem option \<times> faq_session)" where
  "update_item json_dumps s item_id kwargs =
     (case and_then (select_item s item_id) scalar_one_or_none of
        Inl e \<Rightarrow> Inl e
      | Inr None \<Rightarrow> Inr (None, s)
      | Inr (Some item) \<Rightarrow>
          let item' = foldl (set_kwarg json_dumps) item kwargs
          in if \<not> list_all kwarg_fits kwargs then Inl OverflowError
             else if f_id item' \<noteq> f_id item \<and> f_id item' \<in> set (map f_id (faq_items s))
             then Inl IntegrityError
             else Inr (Some item',
                       s\<lparr>faq_items := flush_item (f_id item) item' (faq_items s)\<rparr>))"

text \<open>\<open>FAQService.delete_item\<close>, with the commit of its caller.\<close>

definition delete_item :: "faq_session \<Rightarrow> int \<Rightarrow> error + (bool \<times> faq_session)" where
  "delete_item s item_id =
     (case and_then (select_item s item_id) scalar_one_or_none of
        Inl e \<Rightarrow> Inl e
      | Inr None \<Rightarrow> Inr (False, s)
      | Inr (Some item) \<Rightarrow>
          Inr (True, s\<lparr>faq_items := filter (\<lambda>i. f_id i \<noteq> f_id item) (faq_items s)\<rparr>))"

text \<open>An \<open>UPDATE faq_items SET c = c + 1 WHERE id = item_id\<close> for a counter column
  \<open>c\<close>: the driver refuses an \<open>item_id\<close> that is not a SQLite integer, and the sum
  of SQLite leaves the integers above \<open>2\<^sup>6\<^sup>3 - 1\<close>, where the model stops.\<close>

definition add_one ::
  "(FAQItem \<Rightarrow> int) \<Rightarrow> (FAQItem \<Rightarrow> FAQItem) \<Rightarrow> faq_session \<Rightarrow> int \<Rightarrow> error + faq_session" where
  "add_one counter bump s item_id =
     (if \<not> sqlite_integer item_id then Inl OverflowError
      else if list_ex (\<lambda>i. f_id i = item_id \<and> \<not> sqlite_integer (counter i + 1)) (faq_items s)
      then Inl IntegerBecomesReal
      else Inr (s\<lparr>faq_items := map (\<lambda>i. if f_id i = item_id then bump i else i)
                                    (faq_items s)\<rparr>))"

text \<open>\<open>FAQService.increment_view\<close>\<close>

definition increment_view :: "faq_session \<Rightarrow> int \<Rightarrow> error + faq_session" where
  "increment_view s item_id =
     add_one f_views_count (\<lambda>i. i\<lparr>f_views_count := f_views_count i + 1\<rparr>) s item_id"

text \<open>\<open>FAQService.rate_item\<close>\<close>

definition rate_item :: "faq_session \<Rightarrow> int \<Rightarrow> bool \<Rightarrow> error + faq_session" where
  "rate_item s item_id is_helpful =
     (if is_helpful
      then add_one f_helpful_count (\<lambda>i. i\<lparr>f_helpful_count := f_helpful_count i + 1\<rparr>)
             s item_id
      else add_one f_not_helpful_count
             (\<lambda>i. i\<lparr>f_not_helpful_count := f_not_helpful_count i + 1\<rparr>) s item_id)"

text \<open>\<open>select(UserFavorite).where(UserFavorite.user_id == user_id,
  UserFavorite.faq_item_id == faq_item_id)\<close>\<close>

definition select_favorite :: "faq_session \<Rightarrow> int \<Rightarrow> int \<Rightarrow> error + UserFavorite list" where
  "select_favorite s user_id faq_item_id =
     (if sqlite_integer faq_item_id
      then Inr (filter (\<lambda>r. uf_user_id r = user_id \<and> uf_faq_item_id r = faq_item_id)
                  (favorites s))
      else Inl OverflowError)"

text \<open>\<open>FAQService.add_to_favorites\<close>\<close>

definition add_to_favorites :: "faq_session \<Rightarrow> int \<Rightarrow> int \<Rightarrow> error + (bool \<times> faq_session)" where
  "add_to_favorites s user_id faq_item_id =
     (case and_then (select_favorite s user_id faq_item_id) scalar_one_or_none of
        Inl e \<Rightarrow> Inl e
      | Inr (Some existing) \<Rightarrow> Inr (False, s)
      | Inr None \<Rightarrow>
          let favorite = \<lparr>uf_id = next_rowid (map uf_id (favorites s)), uf_user_id = user_id,
                           uf_faq_item_id = faq_item_id\<rparr>
          in Inr (True, s\<lparr>favorites := favorites s @ [favorite]\<rparr>))"

text \<open>\<open>FAQService.remove_from_favorites\<close>, with the commit of its caller: the found row
  is deleted by its primary key.\<close>

definition remove_from_favorites ::
  "faq_session \<Rightarrow> int \<Rightarrow> int \<Rightarrow> error + (bool \<times> faq_session)" where
  "remove_from_favorites s user_id faq_item_id =
     (case and_then (select_favorite s user_id faq_item_id) scalar_one_or_none of
        Inl e \<Rightarrow> Inl e
      | Inr (Some favorite) \<Rightarrow>
          Inr (True, s\<lparr>favorites := filter (\<lambda>r. uf_id r \<noteq> uf_id favorite) (favorites s)\<rparr>)
      | Inr None \<Rightarrow> Inr (False, s))"

text \<open>\<open>FAQService.is_favorite\<close>\<close>

definition is_favorite :: "faq_session \<Rightarrow> int \<Rightarrow> int \<Rightarrow> error + bool" where
  "is_favorite s user_id faq_item_id =
     (case and_then (select_favorite s user_id faq_item_id) scalar_one_or_none of
        Inl e \<Rightarrow> Inl e
      | Inr r \<Rightarrow> Inr (r \<noteq> None))"

subsection \<open>Sequences of writing operations\<close>

datatype faq_op =
    Create_item int string string "string option" "links option" int
  | Update_item int "kwarg list"
  | Delete_item int
  | Increment_view int
  | Rate_item int bool
  | Add_to_favorites int int
  | Remove_from_favorites int int

fun apply_op :: "(links \<Rightarrow> string) \<Rightarrow> faq_session \<Rightarrow> faq_op \<Rightarrow> error + faq_session" where
  "apply_op jd s (Create_item c q a k l ord) = map_sum id snd (create_item jd s c q a k l ord)"
| "apply_op jd s (Update_item i kwargs) = map_sum id snd (update_item jd s i kwargs)"
| "apply_op jd s (Delete_item i) = map_sum id snd (delete_item s i)"
| "apply_op jd s (Increment_view i) = increment_view s i"
| "apply_op jd s (Rate_item i h) = rate_item s i h"
| "apply_op jd s (Add_to_favorites u i) = map_sum id snd (add_to_favorites s u i)"
| "apply_op jd s (Remove_from_favorites u i) = map_sum id snd (remove_from_favorites s u i)"

text \<open>A sequence of operations stops at the first exception.\<close>

fun run_ops :: "(links \<Rightarrow> string) \<Rightarrow> faq_session \<Rightarrow> faq_op list \<Rightarrow> error + faq_session" where
  "run_ops jd s [] = Inr s"
| "run_ops jd s (op # ops) =
     (case apply_op jd s op of Inl e \<Rightarrow> Inl e | Inr s' \<Rightarrow> run_ops jd s' ops)"

text \<open>Keyword arguments that name one of the three counters or the primary key.\<close>

fun names_counter_or_key :: "kwarg \<Rightarrow> bool" where
  "names_counter_or_key (Kw_views_count v) = True"
| "names_counter_or_key (Kw_helpful_count v) = True"
| "names_counter_or_key (Kw_not_helpful_count v) = True"
| "names_counter_or_key (Kw_id v) = True"
| "names_counter_or_key kw = False"

fun counter_free :: "faq_op \<Rightarrow> bool" where
  "counter_free (Update_item i kwargs) = (\<not> list_ex names_counter_or_key kwargs)"
| "counter_free other = True"

text \<open>The operations that do not delete the item with the key \<open>k\<close>.\<close>

fun keeps_item :: "int \<Rightarrow> faq_op \<Rightarrow> bool" where
  "keeps_item k (Delete_item i) = (i \<noteq> k)"
| "keeps_item k other = True"

section \<open>Fuzzy search (\<open>FAQService.search\<close>, \<open>DocumentService.search\<close>)\<close>

text \<open>A Python \<open>dict\<close> is the list of its key-value pairs in insertion order:
  \<open>d[k] = v\<close> overwrites the value of a key in place or appends a new pair, and
  \<open>d[k]\<close> raises \<open>KeyError\<close> on a missing key.\<close>

fun dict_set :: "'k \<Rightarrow> 'v \<Rightarrow> ('k \<times> 'v) list \<Rightarrow> ('k \<times> 'v) list" where
  "dict_set k v [] = [(k, v)]"
| "dict_set k v ((k', v') # d) = (if k' = k then (k, v) # d else (k', v') # dict_set k v d)"

fun dict_get :: "('k \<times> 'v) list \<Rightarrow> 'k \<Rightarrow> error + 'v" where
  "dict_get [] k = Inl KeyError"
| "dict_get ((k', v') # d) k = (if k' = k then Inr v' else dict_get d k)"

text \<open>A stable sort by descending key, as \<open>list.sort(key=..., reverse=True)\<close> is: an
  element is put into the sorted rest of the list behind the elements with a strictly
  greater key, so in front of those with an equal key, which came after it.\<close>

fun insort_desc :: "('a \<Rightarrow> 's::linorder) \<Rightarrow> 'a \<Rightarrow> 'a list \<Rightarrow> 'a list" where
  "insort_desc f x [] = [x]"
| "insort_desc f x (y # ys) = (if f y \<le> f x then x # y # ys else y # insort_desc f x ys)"

definition sort_desc :: "('a \<Rightarrow> 's::linorder) \<Rightarrow> 'a list \<Rightarrow> 'a list" where
  "sort_desc f xs = foldr (insort_desc f) xs []"

text \<open>The library call \<open>rapidfuzz.process.extract(query, choices, scorer=..., limit=...)\<close>
  on a mapping, as its documentation gives it: every choice is scored against the query,
  the results \<open>(choice, score, key)\<close> are ordered by descending score, equal scores in
  the order of the mapping, and the first \<open>limit\<close> are returned. The scorer
  (\<open>fuzz.token_set_ratio\<close>) is an argument; its scores are of any linearly ordered
  type.\<close>

definition process_extract ::
  "(string \<Rightarrow> string \<Rightarrow> 's::linorder) \<Rightarrow> string \<Rightarrow> ('k \<times> string) list \<Rightarrow> nat
     \<Rightarrow> (string \<times> 's \<times> 'k) list" where
  "process_extract scorer query choices limit =
     take limit (sort_desc (\<lambda>(text, score, key). score)
                   (map (\<lambda>(key, text). (text, scorer query text, key)) choices))"

text \<open>The loop over the matches: a match at or above the threshold gives the object
  stored under its key, with its score.\<close>

fun collect_results ::
  "'s::linorder \<Rightarrow> ('k \<times> 'a \<times> string) list \<Rightarrow> (string \<times> 's \<times> 'k) list
     \<Rightarrow> error + ('a \<times> 's) list" where
  "collect_results threshold search_data [] = Inr []"
| "collect_results threshold search_data ((text, score, key) # matches) =
     (if threshold \<le> score
      then (case dict_get search_data key of
              Inl e \<Rightarrow> Inl e
            | Inr entry \<Rightarrow>
                (case collect_results threshold search_data matches of
                   Inl e \<Rightarrow> Inl e
                 | Inr results \<Rightarrow> Inr ((fst entry, score) # results)))
      else collect_results threshold search_data matches)"

text \<open>What both \<open>search\<close> methods do once \<open>search_data\<close> is built. The limit is a
  natural number: the callers pass the literals 3, 5 and 10.\<close>

definition rank_matches ::
  "(string \<Rightarrow> string \<Rightarrow> 's::linorder) \<Rightarrow> ('k \<times> 'a \<times> string) list \<Rightarrow> string \<Rightarrow> nat \<Rightarrow> 's
     \<Rightarrow> error + ('a \<times> 's) list" where
  "rank_matches scorer search_data query limit threshold =
     (let texts = map (\<lambda>(key, data). (key, snd data)) search_data;
          matches = process_extract scorer query texts (limit * 2)
      in case collect_results threshold search_data matches of
           Inl e \<Rightarrow> Inl e
         | Inr results \<Rightarrow> Inr (take limit (sort_desc snd results)))"

definition faq_search_text :: "FAQItem \<Rightarrow> string" where
  "faq_search_text item =
     (case f_keywords item of
        None \<Rightarrow> f_question item
      | Some keywords \<Rightarrow>
          if keywords \<noteq> [] then f_question item @ '' '' @ keywords else f_question item)"

definition faq_search_data :: "FAQItem list \<Rightarrow> (int \<times> FAQItem \<times> string) list" where
  "faq_search_data items =
     foldl (\<lambda>search_data item. dict_set (f_id item) (item, faq_search_text item) search_data)
       [] items"

text \<open>\<open>FAQService.search\<close> over the rows of \<open>faq_items\<close>.\<close>

definition faq_search ::
  "(string \<Rightarrow> string \<Rightarrow> 's::linorder) \<Rightarrow> FAQItem list \<Rightarrow> string \<Rightarrow> nat \<Rightarrow> 's
     \<Rightarrow> error + (FAQItem \<times> 's) list" where
  "faq_search scorer rows query limit threshold =
     (let items = filter f_is_active rows
      in if items = [] then Inr []
         else rank_matches scorer (faq_search_data items) query limit threshold)"

record Document =
  d_id :: int
  d_name :: string
  d_description :: "string option"
  d_category :: string
  d_keywords :: "string option"
  d_is_active :: bool
  d_downloads_count :: int

definition document_search_text :: "Document \<Rightarrow> string" where
  "document_search_text doc =
     (let t0 = d_name doc;
          t1 = (case d_description doc of
                  None \<Rightarrow> t0
                | Some description \<Rightarrow> if description \<noteq> [] then t0 @ '' '' @ description else t0)
      in case d_keywords doc of
           None \<Rightarrow> t1
         | Some keywords \<Rightarrow> if keywords \<noteq> [] then t1 @ '' '' @ keywords else t1)"

definition document_search_data :: "Document list \<Rightarrow> (int \<times> Document \<times> string) list" where
  "document_search_data documents =
     foldl (\<lambda>search_data doc. dict_set (d_id doc) (doc, document_search_text doc) search_data)
       [] documents"

text \<open>\<open>DocumentService.search\<close> over the rows of \<open>documents\<close>.\<close>

definition document_search ::
  "(string \<Rightarrow> string \<Rightarrow> 's::linorder) \<Rightarrow> Document list \<Rightarrow> string \<Rightarrow> nat \<Rightarrow> 's
     \<Rightarrow> error + (Document \<times> 's) list" where
  "document_search scorer rows query limit threshold =
     (let documents = filter d_is_active rows
      in if documents = [] then Inr []
         else rank_matches scorer (document_search_data documents) query limit threshold)"

text \<open>The candidates of a search with their scores, in the order of \<open>search_data\<close>.\<close>

definition scored_pool ::
  "(string \<Rightarrow> string \<Rightarrow> 's::linorder) \<Rightarrow> string \<Rightarrow> ('k \<times> 'a \<times> string) list \<Rightarrow> ('a \<times> 's) list" where
  "scored_pool scorer query search_data =
     map (\<lambda>(key, data). (fst data, scorer query (snd data))) search_data"

text \<open>The result the specification asks for, in its words: of the candidates with a score
  at or above the threshold, ordered by descending score with equal scores in their
  original order, the first \<open>limit\<close>.\<close>

definition ranked :: "nat \<Rightarrow> 's::linorder \<Rightarrow> ('a \<times> 's) list \<Rightarrow> ('a \<times> 's) list" where
  "ranked limit threshold pool =
     take limit (filter (\<lambda>c. threshold \<le> snd c) (sort_desc snd pool))"

section \<open>Counters of an item\<close>

definition counters :: "FAQItem \<Rightarrow> int \<times> int \<times> int" where
  "counters i = (f_views_count i, f_helpful_count i, f_not_helpful_count i)"

definition counters_le :: "FAQItem \<Rightarrow> FAQItem \<Rightarrow> bool" where
  "counters_le a b =
     (f_views_count a \<le> f_views_count b \<and> f_helpful_count a \<le> f_helpful_count b
      \<and> f_not_helpful_count a \<le> f_not_helpful_count b)"

text \<open>The operations that are meant to change a counter.\<close>

fun view_or_rating :: "faq_op \<Rightarrow> bool" where
  "view_or_rating (Increment_view i) = True"
| "view_or_rating (Rate_item i h) = True"
| "view_or_rating other = False"

text \<open>A sequence of writes for evaluating the counters on sample data.\<close>

definition sample_ops :: "faq_op list" where
  "sample_ops =
     [Increment_view 1, Update_item 1 [Kw_question ''abcd'', Kw_is_pinned True],
      Rate_item 1 True, Create_item 1 ''new'' ''answer'' None None 0, Delete_item 2,
      Rate_item 1 False, Add_to_favorites 7 1]"

section \<open>Sample data\<close>

definition sample_ticket :: "TicketStatus \<Rightarrow> datetime option \<Rightarrow> Ticket" where
  "sample_ticket st resolved =
     \<lparr>t_id = 1, t_ticket_number = ''T202401-0042'', t_user_id = 7, t_assigned_to_id = None,
      t_subject = ''Schedule'', t_description = ''Where is my schedule?'', t_status = st,
      t_priority = 1, t_category = None, t_is_anonymous = False, t_resolved_at = resolved\<rparr>"

definition sample_session :: "TicketStatus \<Rightarrow> datetime option \<Rightarrow> ticket_session" where
  "sample_session st resolved =
     \<lparr>tickets = [sample_ticket st resolved],
      ticket_messages = [\<lparr>m_id = 1, m_ticket_id = 1, m_user_id = 7,
                          m_message = ''Where is my schedule?'', m_is_from_staff = False,
                          m_is_internal = False\<rparr>]\<rparr>"

definition empty_session :: ticket_session where
  "empty_session = \<lparr>tickets = [], ticket_messages = []\<rparr>"

definition sample_user :: "int \<Rightarrow> int \<Rightarrow> UserRole \<Rightarrow> User" where
  "sample_user uid chat role =
     \<lparr>u_id = uid, u_telegram_id = chat, u_role = role, u_is_active = True,
      u_notifications_enabled = True, u_group_name = Some ''221-361'', u_course = Some 2,
      u_faculty = None\<rparr>"

definition sample_notification :: "string option \<Rightarrow> Notification" where
  "sample_notification role =
     \<lparr>n_title = ''Exam'', n_message = ''Tomorrow'', n_target_role = role,
      n_target_group = None, n_target_course = None, n_target_faculty = None,
      n_is_sent = False, n_sent_at = None, n_sent_count = 0\<rparr>"

text \<open>A transport on which chat 42 has blocked the bot and chat 43 is refused as a bad
  request.\<close>

definition sample_bot :: bot where
  "sample_bot chat_id text =
     (if chat_id = 42 then TelegramForbiddenError
      else if chat_id = 43 then TelegramBadRequest else Delivered)"

definition sample_item :: "int \<Rightarrow> string \<Rightarrow> bool \<Rightarrow> int \<Rightarrow> FAQItem" where
  "sample_item i q active views =
     \<lparr>f_id = i, f_category_id = 1, f_question = q, f_answer = ''See the dean office'',
      f_keywords = None, f_links = None, f_views_count = views, f_helpful_count = 2,
      f_not_helpful_count = 1, f_order = 0, f_is_active = active, f_is_pinned = False\<rparr>"

definition sample_faq :: faq_session where
  "sample_faq =
     \<lparr>faq_items = [sample_item 1 ''abc'' True 5, sample_item 2 ''ab'' True 0],
      favorites = []\<rparr>"

definition sample_rows :: "FAQItem list" where
  "sample_rows =
     [sample_item 1 ''abc'' True 5, sample_item 2 ''ab'' True 0,
      sample_item 3 ''abcd'' False 0, sample_item 4 ''xyz'' True 0]"

definition no_json :: "links \<Rightarrow> string" where
  "no_json l = []"

text \<open>A stand-in scorer for evaluating the search on sample data: the length of the
  candidate text.\<close>

definition length_scorer :: "string \<Rightarrow> string \<Rightarrow> nat" where
  "length_scorer query text = length text"

definition sample_document :: "int \<Rightarrow> string \<Rightarrow> Document" where
  "sample_document i name =
     \<lparr>d_id = i, d_name = name, d_description = None, d_category = ''forms'',
      d_keywords = None, d_is_active = True, d_downloads_count = 0\<rparr>"

section \<open>Properties of the ticket service\<close>

lemma next_rowid_above: "k \<in> set ks \<Longrightarrow> k < next_rowid ks"
proof -
  have fold_ge: "\<And>x (xs::int list). x \<le> foldl max x xs"
  proof -
    fix x and xs :: "int list"
    show "x \<le> foldl max x xs"
    proof (induction xs arbitrary: x)
      case Nil
      then show ?case by simp
    next
      case (Cons y ys)
      have "x \<le> max x y" by simp
      also have "max x y \<le> foldl max (max x y) ys" by (rule Cons.IH)
      finally show ?case by simp
    qed
  qed
  have fold_all: "\<And>x (xs::int list) y. y \<in> set xs \<Longrightarrow> y \<le> foldl max x xs"
  proof -
    fix x and xs :: "int list" and y
    assume "y \<in> set xs"
    then show "y \<le> foldl max x xs"
    proof (induction xs arbitrary: x)
      case Nil
      then show ?case by simp
    next
      case (Cons z zs)
      show ?case
      proof (cases "y = z")
        case True
        have "y \<le> max x z" using True by simp
        also have "max x z \<le> foldl max (max x z) zs" by (rule fold_ge)
        finally show ?thesis by simp
      next
        case False
        with Cons.prems have "y \<in> set zs" by simp
        from Cons.IH[OF this] show ?thesis by simp
      qed
    qed
  qed
  assume k: "k \<in> set ks"
  then obtain x xs where ks: "ks = x # xs" by (cases ks) auto
  show ?thesis
  proof (cases "k = x")
    case True
    with fold_ge[of x xs] show ?thesis by (simp add: ks)
  next
    case False
    with k ks have "k \<in> set xs" by simp
    from fold_all[OF this, of x] show ?thesis by (simp add: ks)
  qed
qed

lemma next_rowid_fresh: "next_rowid ks \<notin> set ks"
  using next_rowid_above[of "next_rowid ks" ks] by auto

lemma filter_flush_ticket:
  "t_id t' = i \<Longrightarrow>
   filter (\<lambda>x. t_id x = i) (flush_ticket t' rows) = map (\<lambda>_. t') (filter (\<lambda>x. t_id x = i) rows)"
  unfolding flush_ticket_def by (induction rows) auto

lemma select_ticket_rows:
  assumes "select_ticket s i = Inr rows"
  shows "sqlite_integer i \<and> filter (\<lambda>t. t_id t = i) (tickets s) = rows"
  using assms by (simp add: select_ticket_def split: if_splits)

lemma select_ticket_id: "select_ticket s i = Inr [t] \<Longrightarrow> t_id t = i"
proof -
  assume "select_ticket s i = Inr [t]"
  then have "t \<in> set (filter (\<lambda>t. t_id t = i) (tickets s))"
    using select_ticket_rows[of s i "[t]"] by simp
  then show ?thesis by simp
qed

lemma select_ticket_overflow: "\<not> sqlite_integer i \<Longrightarrow> select_ticket s i = Inl OverflowError"
  by (simp add: select_ticket_def)

lemma update_status_found:
  assumes "select_ticket s ticket_id = Inr [ticket]"
  shows "update_status s now ticket_id new_status user_id comment =
     Inr (Some (ticket\<lparr>t_status := new_status,
                  t_resolved_at := (if new_status = RESOLVED \<or> new_status = CLOSED then Some now
                                    else t_resolved_at ticket)\<rparr>),
          s\<lparr>tickets := flush_ticket (ticket\<lparr>t_status := new_status,
                  t_resolved_at := (if new_status = RESOLVED \<or> new_status = CLOSED then Some now
                                    else t_resolved_at ticket)\<rparr>) (tickets s),
            ticket_messages := ticket_messages s @
               [add_message_row s ticket_id user_id
                  (status_msg (t_status ticket) new_status comment) True False]\<rparr>)"
  using assms select_ticket_id[OF assms]
  by (simp add: update_status_def Let_def)

lemma select_ticket_after_flush:
  assumes "select_ticket s ticket_id = Inr [ticket]" "t_id t' = ticket_id"
  shows "select_ticket (s\<lparr>tickets := flush_ticket t' (tickets s), ticket_messages := ms\<rparr>)
           ticket_id = Inr [t']"
  using assms select_ticket_rows[OF assms(1)]
  by (simp add: select_ticket_def filter_flush_ticket)

text \<open>
  Claim C1, as the code has it. \<open>update_status\<close> checks no transition: for a stored
  ticket it writes whatever status it is given, whatever the current status, so a closed
  ticket can be set to open; \<open>reopen_ticket\<close> calls it with \<open>OPEN\<close> without reading the
  current status. The restriction of reopening to resolved tickets is in the keyboard
  alone: \<open>ticket_actions\<close> offers the reopen button exactly when the status is
  \<open>RESOLVED\<close>.
\<close>

theorem update_status_any_transition:
  assumes "select_ticket s ticket_id = Inr [ticket]"
  shows "map_sum id (map_option t_status \<circ> fst)
           (update_status s now ticket_id new_status user_id comment) = Inr (Some new_status)
       \<and> and_then (update_status s now ticket_id new_status user_id comment)
           (\<lambda>r. map_sum id (map t_status) (select_ticket (snd r) ticket_id)) = Inr [new_status]
       \<and> and_then (reopen_ticket s now ticket_id user_id)
           (\<lambda>s'. map_sum id (map t_status) (select_ticket s' ticket_id)) = Inr [OPEN]
       \<and> (Ticket_reopen (t_id ticket) \<in> set (concat (ticket_actions ticket is_staff)))
           = (t_status ticket = RESOLVED)"
proof -
  have i: "t_id ticket = ticket_id" using assms by (rule select_ticket_id)
  have a: "map_sum id (map_option t_status \<circ> fst)
           (update_status s now ticket_id new_status user_id comment) = Inr (Some new_status)"
    by (simp add: update_status_found[OF assms])
  have b: "and_then (update_status s now ticket_id new_status user_id comment)
           (\<lambda>r. map_sum id (map t_status) (select_ticket (snd r) ticket_id)) = Inr [new_status]"
    by (simp add: update_status_found[OF assms] select_ticket_after_flush[OF assms] i)
  have c: "and_then (reopen_ticket s now ticket_id user_id)
           (\<lambda>s'. map_sum id (map t_status) (select_ticket s' ticket_id)) = Inr [OPEN]"
    by (simp add: reopen_ticket_def update_status_found[OF assms]
        select_ticket_after_flush[OF assms] i)
  have d: "(Ticket_reopen (t_id ticket) \<in> set (concat (ticket_actions ticket is_staff)))
           = (t_status ticket = RESOLVED)"
    by (auto simp add: ticket_actions_def)
  from a b c d show ?thesis by blast
qed

theorem update_status_any_transition_witness:
  "select_ticket (sample_session CLOSED (Some 50)) 1 = Inr [sample_ticket CLOSED (Some 50)]
   \<and> map_sum id (map_option t_status \<circ> fst)
        (update_status (sample_session CLOSED (Some 50)) 100 1 IN_PROGRESS 7 None)
       = Inr (Some IN_PROGRESS)
   \<and> and_then (reopen_ticket (sample_session CLOSED (Some 50)) 100 1 7)
        (\<lambda>s'. map_sum id (map t_status) (select_ticket s' 1)) = Inr [OPEN]
   \<and> Ticket_reopen 1 \<notin> set (concat (ticket_actions (sample_ticket CLOSED (Some 50)) False))"
proof -
  have h: "select_ticket (sample_session CLOSED (Some 50)) 1
           = Inr [sample_ticket CLOSED (Some 50)]"
    by (simp add: select_ticket_def sqlite_integer_def sample_session_def sample_ticket_def)
  show ?thesis
    using h update_status_any_transition [OF h, of 100 IN_PROGRESS 7 None False]
    by (simp add: sample_ticket_def)
qed

theorem reopen_closed_ticket_counterexample:
  "tickets (sample_session CLOSED (Some 50)) = [sample_ticket CLOSED (Some 50)]
   \<and> reopen_ticket (sample_session CLOSED (Some 50)) 100 1 7 =
      Inr \<lparr>tickets = [sample_ticket OPEN (Some 50)],
           ticket_messages =
             [\<lparr>m_id = 1, m_ticket_id = 1, m_user_id = 7,
               m_message = ''Where is my schedule?'', m_is_from_staff = False,
               m_is_internal = False\<rparr>,
              \<lparr>m_id = 2, m_ticket_id = 1, m_user_id = 7,
               m_message = status_changed_prefix @ ''closed'' @ arrow @ ''open''
                           @ comment_prefix @ reopened_by_user,
               m_is_from_staff = True, m_is_internal = False\<rparr>]\<rparr>"
  by (simp add: reopen_ticket_def update_status_def select_ticket_def sqlite_integer_def
      sample_session_def sample_ticket_def flush_ticket_def add_message_row_def status_msg_def
      reopened_by_user_def Let_def)

text \<open>
  Claim C2, as the code has it. A status change of a stored ticket appends exactly one
  message to the log, written by staff and not internal, whose text is the prefix, the old
  status, the arrow and the new status, followed by the comment when one is given and not
  empty. \<open>resolved_at\<close> is stamped with the current time when the new status is
  \<open>RESOLVED\<close> or \<open>CLOSED\<close>, and keeps its former value otherwise.
\<close>

theorem update_status_message_and_timestamp:
  assumes "select_ticket s ticket_id = Inr [ticket]"
  shows "\<exists>ticket' s' message.
      update_status s now ticket_id new_status user_id comment = Inr (Some ticket', s')
    \<and> ticket_messages s' = ticket_messages s @ [message]
    \<and> select_ticket s' ticket_id = Inr [ticket']
    \<and> m_ticket_id message = ticket_id \<and> m_user_id message = user_id
    \<and> m_is_from_staff message \<and> \<not> m_is_internal message
    \<and> m_message message =
        status_changed_prefix @ status_value (t_status ticket) @ arrow @ status_value new_status
        @ (case comment of None \<Rightarrow> [] | Some c \<Rightarrow> if c = [] then [] else comment_prefix @ c)
    \<and> t_status ticket' = new_status
    \<and> t_resolved_at ticket' =
        (if new_status = RESOLVED \<or> new_status = CLOSED then Some now else t_resolved_at ticket)"
proof -
  have i: "t_id ticket = ticket_id" using assms by (rule select_ticket_id)
  have m: "status_msg (t_status ticket) new_status comment =
        status_changed_prefix @ status_value (t_status ticket) @ arrow @ status_value new_status
        @ (case comment of None \<Rightarrow> [] | Some c \<Rightarrow> if c = [] then [] else comment_prefix @ c)"
    by (simp add: status_msg_def Let_def split: option.splits)
  let ?t = "ticket\<lparr>t_status := new_status,
                  t_resolved_at := (if new_status = RESOLVED \<or> new_status = CLOSED then Some now
                                    else t_resolved_at ticket)\<rparr>"
  let ?m = "add_message_row s ticket_id user_id
                  (status_msg (t_status ticket) new_status comment) True False"
  let ?s = "s\<lparr>tickets := flush_ticket ?t (tickets s),
            ticket_messages := ticket_messages s @ [?m]\<rparr>"
  have r: "update_status s now ticket_id new_status user_id comment = Inr (Some ?t, ?s)"
    by (rule update_status_found[OF assms])
  have sel: "select_ticket ?s ticket_id = Inr [?t]"
    by (rule select_ticket_after_flush[OF assms]) (simp add: i)
  have msgs: "ticket_messages ?s = ticket_messages s @ [?m]" by simp
  have fields: "m_ticket_id ?m = ticket_id \<and> m_user_id ?m = user_id
      \<and> m_is_from_staff ?m \<and> \<not> m_is_internal ?m"
    by (simp add: add_message_row_def)
  have body: "m_message ?m =
        status_changed_prefix @ status_value (t_status ticket) @ arrow @ status_value new_status
        @ (case comment of None \<Rightarrow> [] | Some c \<Rightarrow> if c = [] then [] else comment_prefix @ c)"
    using m by (simp add: add_message_row_def)
  have st: "t_status ?t = new_status" by simp
  have ra: "t_resolved_at ?t =
        (if new_status = RESOLVED \<or> new_status = CLOSED then Some now else t_resolved_at ticket)"
    by simp
  from r sel msgs fields body st ra show ?thesis by blast
qed

theorem update_status_message_and_timestamp_witness:
  "select_ticket (sample_session IN_PROGRESS None) 1 = Inr [sample_ticket IN_PROGRESS None]
   \<and> (\<exists>ticket' s' message.
      update_status (sample_session IN_PROGRESS None) 100 1 RESOLVED 9 (Some ''done'')
        = Inr (Some ticket', s')
    \<and> ticket_messages s' = ticket_messages (sample_session IN_PROGRESS None) @ [message]
    \<and> m_message message =
        status_changed_prefix @ ''in_progress'' @ arrow @ ''resolved'' @ comment_prefix @ ''done''
    \<and> t_status ticket' = RESOLVED
    \<and> t_resolved_at ticket' = Some 100)"
proof -
  have h: "select_ticket (sample_session IN_PROGRESS None) 1
           = Inr [sample_ticket IN_PROGRESS None]"
    by (simp add: select_ticket_def sqlite_integer_def sample_session_def sample_ticket_def)
  show ?thesis
    using h update_status_message_and_timestamp [OF h, of 100 RESOLVED 9 "Some ''done''"]
    by (auto simp add: sample_ticket_def)
qed

theorem resolved_at_kept_counterexample:
  "update_status (sample_session RESOLVED (Some 50)) 100 1 OPEN 7 None =
      Inr (Some (sample_ticket OPEN (Some 50)),
           \<lparr>tickets = [sample_ticket OPEN (Some 50)],
            ticket_messages =
              [\<lparr>m_id = 1, m_ticket_id = 1, m_user_id = 7,
                m_message = ''Where is my schedule?'', m_is_from_staff = False,
                m_is_internal = False\<rparr>,
               \<lparr>m_id = 2, m_ticket_id = 1, m_user_id = 7,
                m_message = status_changed_prefix @ ''resolved'' @ arrow @ ''open'',
                m_is_from_staff = True, m_is_internal = False\<rparr>]\<rparr>)"
  by (simp add: update_status_def select_ticket_def sqlite_integer_def sample_session_def
      sample_ticket_def flush_ticket_def add_message_row_def status_msg_def Let_def)

text \<open>
  Claim C4, as the code has it. For a ticket id that is a SQLite integer and has no
  stored ticket, \<open>update_status\<close> and \<open>assign_ticket\<close> return \<open>None\<close> and leave the
  session as it was, without an exception; \<open>add_message\<close> raises nothing either, but on
  this store, which does not enforce the foreign key of the message, it stores the
  message under that ticket id and returns it, the ticket table unchanged. For a ticket
  id that is not a SQLite integer each of the three raises \<open>OverflowError\<close>.
\<close>

theorem missing_ticket_operations:
  "(select_ticket s ticket_id = Inr [] \<longrightarrow>
      update_status s now ticket_id new_status user_id comment = Inr (None, s)
    \<and> assign_ticket s ticket_id assigned_to_id = Inr (None, s)
    \<and> add_message s ticket_id user_id message is_from_staff is_internal =
        Inr (add_message_row s ticket_id user_id message is_from_staff is_internal,
             s\<lparr>ticket_messages := ticket_messages s @
                  [add_message_row s ticket_id user_id message is_from_staff is_internal]\<rparr>))
   \<and> (\<not> sqlite_integer ticket_id \<longrightarrow>
      update_status s now ticket_id new_status user_id comment = Inl OverflowError
    \<and> assign_ticket s ticket_id assigned_to_id = Inl OverflowError
    \<and> add_message s ticket_id user_id message is_from_staff is_internal = Inl OverflowError)
   \<and> (select_ticket s ticket_id = Inr [])
       = (sqlite_integer ticket_id \<and> ticket_id \<notin> set (map t_id (tickets s)))"
proof -
  have a: "select_ticket s ticket_id = Inr [] \<longrightarrow>
      update_status s now ticket_id new_status user_id comment = Inr (None, s)
    \<and> assign_ticket s ticket_id assigned_to_id = Inr (None, s)
    \<and> add_message s ticket_id user_id message is_from_staff is_internal =
        Inr (add_message_row s ticket_id user_id message is_from_staff is_internal,
             s\<lparr>ticket_messages := ticket_messages s @
                  [add_message_row s ticket_id user_id message is_from_staff is_internal]\<rparr>)"
    by (simp add: update_status_def assign_ticket_def add_message_def Let_def)
  have b: "\<not> sqlite_integer ticket_id \<longrightarrow>
      update_status s now ticket_id new_status user_id comment = Inl OverflowError
    \<and> assign_ticket s ticket_id assigned_to_id = Inl OverflowError
    \<and> add_message s ticket_id user_id message is_from_staff is_internal = Inl OverflowError"
    by (simp add: update_status_def assign_ticket_def add_message_def select_ticket_overflow)
  have c: "(select_ticket s ticket_id = Inr [])
       = (sqlite_integer ticket_id \<and> ticket_id \<notin> set (map t_id (tickets s)))"
    by (auto simp add: select_ticket_def filter_empty_conv)
  from a b c show ?thesis by blast
qed

theorem missing_ticket_operations_witness:
  "select_ticket empty_session 7 = Inr []
   \<and> update_status empty_session 100 7 CLOSED 9 None = Inr (None, empty_session)
   \<and> assign_ticket empty_session 7 9 = Inr (None, empty_session)
   \<and> map_sum id (\<lambda>r. (m_ticket_id (fst r), length (ticket_messages (snd r)), tickets (snd r)))
       (add_message empty_session 7 9 ''hello'' False False) = Inr (7, 1, [])
   \<and> \<not> sqlite_integer (2 ^ 63)
   \<and> update_status empty_session 100 (2 ^ 63) CLOSED 9 None = Inl OverflowError
   \<and> assign_ticket empty_session (2 ^ 63) 9 = Inl OverflowError
   \<and> add_message empty_session (2 ^ 63) 9 ''hello'' False False = Inl OverflowError"
proof -
  have h: "select_ticket empty_session 7 = Inr []"
    by (simp add: select_ticket_def sqlite_integer_def empty_session_def)
  have o: "\<not> sqlite_integer (2 ^ 63)" by (simp add: sqlite_integer_def)
  note t1 = missing_ticket_operations
    [of empty_session 7 100 CLOSED 9 None 9 "''hello''" False False]
  note t2 = missing_ticket_operations
    [of empty_session "2 ^ 63" 100 CLOSED 9 None 9 "''hello''" False False]
  from t1 h have
    u: "update_status empty_session 100 7 CLOSED 9 None = Inr (None, empty_session)"
    and a: "assign_ticket empty_session 7 9 = Inr (None, empty_session)"
    and m: "add_message empty_session 7 9 ''hello'' False False =
        Inr (add_message_row empty_session 7 9 ''hello'' False False,
             empty_session\<lparr>ticket_messages := ticket_messages empty_session @
                  [add_message_row empty_session 7 9 ''hello'' False False]\<rparr>)"
    by blast+
  from m have m': "map_sum id
        (\<lambda>r. (m_ticket_id (fst r), length (ticket_messages (snd r)), tickets (snd r)))
       (add_message empty_session 7 9 ''hello'' False False) = Inr (7, 1, [])"
    by (simp add: add_message_row_def empty_session_def)
  from t2 o have
    ov: "update_status empty_session 100 (2 ^ 63) CLOSED 9 None = Inl OverflowError"
      "assign_ticket empty_session (2 ^ 63) 9 = Inl OverflowError"
      "add_message empty_session (2 ^ 63) 9 ''hello'' False False = Inl OverflowError"
    by blast+
  from h u a m' o ov show ?thesis by blast
qed

theorem add_message_missing_ticket_counterexample:
  "select_ticket empty_session 7 = Inr []
   \<and> add_message empty_session 7 3 ''hello'' False False =
      Inr (\<lparr>m_id = 1, m_ticket_id = 7, m_user_id = 3, m_message = ''hello'',
             m_is_from_staff = False, m_is_internal = False\<rparr>,
           \<lparr>tickets = [],
            ticket_messages =
              [\<lparr>m_id = 1, m_ticket_id = 7, m_user_id = 3, m_message = ''hello'',
                m_is_from_staff = False, m_is_internal = False\<rparr>]\<rparr>)
   \<and> update_status empty_session 100 (2 ^ 63) CLOSED 9 None = Inl OverflowError"
  by (simp add: add_message_def update_status_def select_ticket_def sqlite_integer_def
      empty_session_def add_message_row_def Let_def)

lemma create_ticket_stored:
  assumes "sqlite_integer priority"
    and "generate_ticket_number prefix suffix \<notin> set (map t_ticket_number (tickets s))"
  shows "create_ticket s prefix suffix user_id subject description category priority is_anonymous
     = Inr (\<lparr>t_id = next_rowid (map t_id (tickets s)),
              t_ticket_number = generate_ticket_number prefix suffix,
              t_user_id = user_id, t_assigned_to_id = None, t_subject = subject,
              t_description = description, t_status = OPEN, t_priority = priority,
              t_category = category, t_is_anonymous = is_anonymous, t_resolved_at = None\<rparr>,
            \<lparr>tickets = tickets s @
               [\<lparr>t_id = next_rowid (map t_id (tickets s)),
                 t_ticket_number = generate_ticket_number prefix suffix,
                 t_user_id = user_id, t_assigned_to_id = None, t_subject = subject,
                 t_description = description, t_status = OPEN, t_priority = priority,
                 t_category = category, t_is_anonymous = is_anonymous, t_resolved_at = None\<rparr>],
             ticket_messages = ticket_messages s @
               [\<lparr>m_id = next_rowid (map m_id (ticket_messages s)),
                 m_ticket_id = next_rowid (map t_id (tickets s)), m_user_id = user_id,
                 m_message = description, m_is_from_staff = False, m_is_internal = False\<rparr>]\<rparr>)"
  using assms by (simp add: create_ticket_def Let_def add_message_row_def)

text \<open>
  Claim C6, as the code has it. \<open>create_ticket\<close> draws the ticket number itself; when
  the number drawn is already stored, the unique index rejects the ticket and the call
  raises \<open>IntegrityError\<close>. Otherwise (with a priority that is a SQLite integer) it
  returns a ticket with status \<open>OPEN\<close> under a key no stored ticket has, and appends one
  message for it whose text is the description, whose author is the requesting user and
  which is not from staff. That message is the last of the thread of the ticket; it is
  the first and only one exactly when no stored message carried the new key already.
\<close>

theorem create_ticket_open_with_description:
  "(sqlite_integer priority
      \<and> generate_ticket_number prefix suffix \<in> set (map t_ticket_number (tickets s))
    \<longrightarrow> create_ticket s prefix suffix user_id subject description category priority is_anonymous
        = Inl IntegrityError)
   \<and> (sqlite_integer priority
      \<and> generate_ticket_number prefix suffix \<notin> set (map t_ticket_number (tickets s))
    \<longrightarrow> (\<exists>ticket s' message.
      create_ticket s prefix suffix user_id subject description category priority is_anonymous
        = Inr (ticket, s')
    \<and> t_id ticket \<notin> set (map t_id (tickets s))
    \<and> t_status ticket = OPEN \<and> t_user_id ticket = user_id
    \<and> t_description ticket = description
    \<and> tickets s' = tickets s @ [ticket]
    \<and> ticket_messages s' = ticket_messages s @ [message]
    \<and> m_ticket_id message = t_id ticket \<and> m_message message = description
    \<and> m_user_id message = user_id \<and> \<not> m_is_from_staff message
    \<and> get_messages s' (t_id ticket) = get_messages s (t_id ticket) @ [message]
    \<and> (get_messages s' (t_id ticket) = [message]) = (get_messages s (t_id ticket) = [])))
   \<and> (\<not> sqlite_integer priority
    \<longrightarrow> create_ticket s prefix suffix user_id subject description category priority is_anonymous
        = Inl OverflowError)"
proof -
  have a: "sqlite_integer priority
      \<and> generate_ticket_number prefix suffix \<in> set (map t_ticket_number (tickets s))
    \<longrightarrow> create_ticket s prefix suffix user_id subject description category priority is_anonymous
        = Inl IntegrityError"
    by (simp add: create_ticket_def Let_def)
  have c: "\<not> sqlite_integer priority
    \<longrightarrow> create_ticket s prefix suffix user_id subject description category priority is_anonymous
        = Inl OverflowError"
    by (simp add: create_ticket_def Let_def)
  have b: "sqlite_integer priority
      \<and> generate_ticket_number prefix suffix \<notin> set (map t_ticket_number (tickets s))
    \<longrightarrow> (\<exists>ticket s' message.
      create_ticket s prefix suffix user_id subject description category priority is_anonymous
        = Inr (ticket, s')
    \<and> t_id ticket \<notin> set (map t_id (tickets s))
    \<and> t_status ticket = OPEN \<and> t_user_id ticket = user_id
    \<and> t_description ticket = description
    \<and> tickets s' = tickets s @ [ticket]
    \<and> ticket_messages s' = ticket_messages s @ [message]
    \<and> m_ticket_id message = t_id ticket \<and> m_message message = description
    \<and> m_user_id message = user_id \<and> \<not> m_is_from_staff message
    \<and> get_messages s' (t_id ticket) = get_messages s (t_id ticket) @ [message]
    \<and> (get_messages s' (t_id ticket) = [message]) = (get_messages s (t_id ticket) = []))"
  proof
    assume h: "sqlite_integer priority
      \<and> generate_ticket_number prefix suffix \<notin> set (map t_ticket_number (tickets s))"
    have fresh: "next_rowid (map t_id (tickets s)) \<notin> set (map t_id (tickets s))"
      by (rule next_rowid_fresh)
    let ?t = "\<lparr>t_id = next_rowid (map t_id (tickets s)),
              t_ticket_number = generate_ticket_number prefix suffix,
              t_user_id = user_id, t_assigned_to_id = None, t_subject = subject,
              t_description = description, t_status = OPEN, t_priority = priority,
              t_category = category, t_is_anonymous = is_anonymous, t_resolved_at = None\<rparr>"
    let ?m = "\<lparr>m_id = next_rowid (map m_id (ticket_messages s)),
                 m_ticket_id = next_rowid (map t_id (tickets s)), m_user_id = user_id,
                 m_message = description, m_is_from_staff = False, m_is_internal = False\<rparr>"
    let ?s = "\<lparr>tickets = tickets s @ [?t], ticket_messages = ticket_messages s @ [?m]\<rparr>"
    have r: "create_ticket s prefix suffix user_id subject description category priority
               is_anonymous = Inr (?t, ?s)"
      by (rule create_ticket_stored[OF conjunct1[OF h] conjunct2[OF h]])
    have k: "t_id ?t \<notin> set (map t_id (tickets s))" using fresh by simp
    have tf: "t_status ?t = OPEN \<and> t_user_id ?t = user_id \<and> t_description ?t = description"
      by simp
    have tb: "tickets ?s = tickets s @ [?t] \<and> ticket_messages ?s = ticket_messages s @ [?m]"
      by simp
    have mf: "m_ticket_id ?m = t_id ?t \<and> m_message ?m = description
        \<and> m_user_id ?m = user_id \<and> \<not> m_is_from_staff ?m"
      by simp
    have th: "get_messages ?s (t_id ?t) = get_messages s (t_id ?t) @ [?m]"
      by (simp add: get_messages_def)
    have only: "(get_messages ?s (t_id ?t) = [?m]) = (get_messages s (t_id ?t) = [])"
      by (simp only: th) simp
    from r k tf tb mf th only
    show "\<exists>ticket s' message.
      create_ticket s prefix suffix user_id subject description category priority is_anonymous
        = Inr (ticket, s')
    \<and> t_id ticket \<notin> set (map t_id (tickets s))
    \<and> t_status ticket = OPEN \<and> t_user_id ticket = user_id
    \<and> t_description ticket = description
    \<and> tickets s' = tickets s @ [ticket]
    \<and> ticket_messages s' = ticket_messages s @ [message]
    \<and> m_ticket_id message = t_id ticket \<and> m_message message = description
    \<and> m_user_id message = user_id \<and> \<not> m_is_from_staff message
    \<and> get_messages s' (t_id ticket) = get_messages s (t_id ticket) @ [message]
    \<and> (get_messages s' (t_id ticket) = [message]) = (get_messages s (t_id ticket) = [])"
      by blast
  qed
  from a b c show ?thesis by blast
qed


theorem create_ticket_open_with_description_witness:
  "sqlite_integer 1
   \<and> generate_ticket_number ''202401'' ''0042''
       \<in> set (map t_ticket_number (tickets (sample_session CLOSED None)))
   \<and> create_ticket (sample_session CLOSED None) ''202401'' ''0042'' 8 ''Debt''
        ''How to retake?'' None 1 False = Inl IntegrityError
   \<and> generate_ticket_number ''202401'' ''0001''
       \<notin> set (map t_ticket_number (tickets (sample_session CLOSED None)))
   \<and> (\<exists>ticket s' message.
      create_ticket (sample_session CLOSED None) ''202401'' ''0001'' 8 ''Debt''
        ''How to retake?'' None 1 False = Inr (ticket, s')
    \<and> t_status ticket = OPEN
    \<and> ticket_messages s' = ticket_messages (sample_session CLOSED None) @ [message]
    \<and> m_ticket_id message = t_id ticket
    \<and> m_message message = ''How to retake?''
    \<and> m_user_id message = 8 \<and> \<not> m_is_from_staff message)
   \<and> \<not> sqlite_integer (2 ^ 63)
   \<and> create_ticket (sample_session CLOSED None) ''202401'' ''0001'' 8 ''Debt''
        ''How to retake?'' None (2 ^ 63) False = Inl OverflowError"
proof -
  have p: "sqlite_integer 1" by (simp add: sqlite_integer_def)
  have o: "\<not> sqlite_integer (2 ^ 63)" by (simp add: sqlite_integer_def)
  have c: "generate_ticket_number ''202401'' ''0042''
       \<in> set (map t_ticket_number (tickets (sample_session CLOSED None)))"
    by (simp add: generate_ticket_number_def sample_session_def sample_ticket_def)
  have n: "generate_ticket_number ''202401'' ''0001''
       \<notin> set (map t_ticket_number (tickets (sample_session CLOSED None)))"
    by (simp add: generate_ticket_number_def sample_session_def sample_ticket_def)
  note t1 = create_ticket_open_with_description
    [of 1 "''202401''" "''0042''" "sample_session CLOSED None" 8 "''Debt''"
        "''How to retake?''" None False]
  note t2 = create_ticket_open_with_description
    [of 1 "''202401''" "''0001''" "sample_session CLOSED None" 8 "''Debt''"
        "''How to retake?''" None False]
  note t3 = create_ticket_open_with_description
    [of "2 ^ 63" "''202401''" "''0001''" "sample_session CLOSED None" 8 "''Debt''"
        "''How to retake?''" None False]
  from t1 p c have e1: "create_ticket (sample_session CLOSED None) ''202401'' ''0042'' 8
        ''Debt'' ''How to retake?'' None 1 False = Inl IntegrityError"
    by blast
  from t2 p n have e2: "\<exists>ticket s' message.
      create_ticket (sample_session CLOSED None) ''202401'' ''0001'' 8 ''Debt''
        ''How to retake?'' None 1 False = Inr (ticket, s')
    \<and> t_status ticket = OPEN
    \<and> ticket_messages s' = ticket_messages (sample_session CLOSED None) @ [message]
    \<and> m_ticket_id message = t_id ticket
    \<and> m_message message = ''How to retake?''
    \<and> m_user_id message = 8 \<and> \<not> m_is_from_staff message"
    by blast
  from t3 o have e3: "create_ticket (sample_session CLOSED None) ''202401'' ''0001'' 8
        ''Debt'' ''How to retake?'' None (2 ^ 63) False = Inl OverflowError"
    by blast
  from p c e1 n e2 o e3 show ?thesis by blast
qed

theorem ticket_number_collision_counterexample:
  "t_ticket_number (sample_ticket CLOSED None) = generate_ticket_number ''202401'' ''0042''
   \<and> create_ticket (sample_session CLOSED None) ''202401'' ''0042'' 8 ''Debt''
        ''How to retake?'' None 1 False = Inl IntegrityError
   \<and> add_message empty_session 1 3 ''orphan'' False False =
      Inr (\<lparr>m_id = 1, m_ticket_id = 1, m_user_id = 3, m_message = ''orphan'',
             m_is_from_staff = False, m_is_internal = False\<rparr>,
           \<lparr>tickets = [],
            ticket_messages =
              [\<lparr>m_id = 1, m_ticket_id = 1, m_user_id = 3, m_message = ''orphan'',
                m_is_from_staff = False, m_is_internal = False\<rparr>]\<rparr>)
   \<and> create_ticket
          \<lparr>tickets = [],
           ticket_messages =
             [\<lparr>m_id = 1, m_ticket_id = 1, m_user_id = 3, m_message = ''orphan'',
               m_is_from_staff = False, m_is_internal = False\<rparr>]\<rparr>
          ''202401'' ''0001'' 8 ''Debt'' ''How to retake?'' None 1 False
     = Inr (\<lparr>t_id = 1, t_ticket_number = ''T202401-0001'', t_user_id = 8,
              t_assigned_to_id = None, t_subject = ''Debt'',
              t_description = ''How to retake?'', t_status = OPEN, t_priority = 1,
              t_category = None, t_is_anonymous = False, t_resolved_at = None\<rparr>,
            \<lparr>tickets =
               [\<lparr>t_id = 1, t_ticket_number = ''T202401-0001'', t_user_id = 8,
                 t_assigned_to_id = None, t_subject = ''Debt'',
                 t_description = ''How to retake?'', t_status = OPEN, t_priority = 1,
                 t_category = None, t_is_anonymous = False, t_resolved_at = None\<rparr>],
             ticket_messages =
               [\<lparr>m_id = 1, m_ticket_id = 1, m_user_id = 3, m_message = ''orphan'',
                 m_is_from_staff = False, m_is_internal = False\<rparr>,
                \<lparr>m_id = 2, m_ticket_id = 1, m_user_id = 8,
                 m_message = ''How to retake?'', m_is_from_staff = False,
                 m_is_internal = False\<rparr>]\<rparr>)"
  by (simp add: create_ticket_def generate_ticket_number_def sqlite_integer_def
      sample_session_def sample_ticket_def add_message_def select_ticket_def empty_session_def
      add_message_row_def get_messages_def Let_def)

section \<open>Properties of notification targeting and dispatch, and of the dashboard\<close>

lemma send_loop_result:
  "send_loop tg text users c =
     (map (\<lambda>u. if tg (u_telegram_id u) text = TelegramForbiddenError
                then u\<lparr>u_is_active := False\<rparr> else u) users,
      c + int (length (filter (\<lambda>u. tg (u_telegram_id u) text = Delivered) users)))"
  by (induction users arbitrary: c) (auto split: send_outcome.splits)

lemma length_filter_complement:
  "int (length (filter P xs)) = int (length xs) - int (length (filter (\<lambda>x. \<not> P x) xs))"
  using sum_length_filter_compl[of P xs] by simp

text \<open>
  Claim C5, as the code has it. Without a bot instance \<open>send_notification\<close> raises
  \<open>ValueError\<close>; with one it never raises: it tries every target user, and returns the
  single number \<open>sent_count\<close> - the number of targets less the number of failed
  deliveries, whatever the failure - with no count of failures beside it. A target is
  made inactive exactly when its delivery fails with \<open>TelegramForbiddenError\<close>; after
  any other failure the user object is as it was.
\<close>

theorem send_notification_tally:
  "send_notification None now users_table notification
     = Inl (ValueError ''Bot instance not provided'')
   \<and> send_notification (Some tg) now users_table notification =
       Inr (int (length (get_target_users users_table notification))
            - int (length (filter (\<lambda>u. tg (u_telegram_id u) (notification_text notification)
                                        \<noteq> Delivered)
                             (get_target_users users_table notification))),
            map (\<lambda>u. if tg (u_telegram_id u) (notification_text notification)
                          = TelegramForbiddenError
                       then u\<lparr>u_is_active := False\<rparr> else u)
              (get_target_users users_table notification),
            notification\<lparr>n_is_sent := True, n_sent_at := Some now,
               n_sent_count :=
                 int (length (get_target_users users_table notification))
                 - int (length (filter (\<lambda>u. tg (u_telegram_id u) (notification_text notification)
                                             \<noteq> Delivered)
                                  (get_target_users users_table notification)))\<rparr>)"
  by (simp add: send_notification_def Let_def send_loop_result
      length_filter_complement[of "\<lambda>u. tg (u_telegram_id u) (notification_text notification) = Delivered"])

theorem bad_request_recipient_counterexample:
  "send_notification (Some sample_bot) 100
        [sample_user 1 41 STUDENT, sample_user 2 42 STUDENT, sample_user 3 43 STUDENT]
        (sample_notification None)
   = Inr (1,
          [sample_user 1 41 STUDENT, (sample_user 2 42 STUDENT)\<lparr>u_is_active := False\<rparr>,
           sample_user 3 43 STUDENT],
          (sample_notification None)\<lparr>n_is_sent := True, n_sent_at := Some 100,
                                       n_sent_count := 1\<rparr>)
   \<and> sample_bot 43 (notification_text (sample_notification None)) = TelegramBadRequest
   \<and> u_is_active (sample_user 3 43 STUDENT)"
  by (simp add: send_notification_def get_target_users_def sample_user_def
      sample_notification_def sample_bot_def Let_def)

lemma list_all_append_single: "list_all P (xs @ [x]) = (list_all P xs \<and> P x)"
  by simp

text \<open>
  Claim C10. When \<open>target_role\<close> is not the value of a role, the conversion error is
  swallowed and the role condition is dropped: the targets are those of the same
  notification without a role, that is, the active users with notifications enabled that
  meet the group, course and faculty conditions that are set.
\<close>

theorem invalid_role_filter_dropped:
  assumes "UserRole_of_value r = None"
  shows "get_target_users users (notification\<lparr>n_target_role := Some r\<rparr>)
           = get_target_users users (notification\<lparr>n_target_role := None\<rparr>)
       \<and> get_target_users users (notification\<lparr>n_target_role := Some r\<rparr>)
           = filter (\<lambda>u. u_is_active u \<and> u_notifications_enabled u
                 \<and> (truthy_str (n_target_group notification)
                      \<longrightarrow> u_group_name u = n_target_group notification)
                 \<and> (n_target_course notification \<noteq> None \<and> n_target_course notification \<noteq> Some 0
                      \<longrightarrow> u_course u = n_target_course notification)
                 \<and> (truthy_str (n_target_faculty notification)
                      \<longrightarrow> u_faculty u = n_target_faculty notification)) users"
proof -
  have a: "get_target_users users (notification\<lparr>n_target_role := Some r\<rparr>)
           = get_target_users users (notification\<lparr>n_target_role := None\<rparr>)"
    using assms by (simp add: get_target_users_def Let_def)
  have b: "get_target_users users (notification\<lparr>n_target_role := None\<rparr>)
           = filter (\<lambda>u. u_is_active u \<and> u_notifications_enabled u
                 \<and> (truthy_str (n_target_group notification)
                      \<longrightarrow> u_group_name u = n_target_group notification)
                 \<and> (n_target_course notification \<noteq> None \<and> n_target_course notification \<noteq> Some 0
                      \<longrightarrow> u_course u = n_target_course notification)
                 \<and> (truthy_str (n_target_faculty notification)
                      \<longrightarrow> u_faculty u = n_target_faculty notification)) users"
    by (auto simp add: get_target_users_def Let_def intro!: filter_cong)
  from a b show ?thesis by simp
qed

theorem invalid_role_filter_dropped_witness:
  "UserRole_of_value ''dean'' = None
   \<and> map u_id (get_target_users
        [sample_user 1 41 STUDENT, sample_user 2 42 TEACHER,
         (sample_user 3 43 ADMIN)\<lparr>u_notifications_enabled := False\<rparr>]
        ((sample_notification (Some ''teacher''))\<lparr>n_target_role := Some ''dean''\<rparr>)) = [1, 2]
   \<and> map u_id (get_target_users
        [sample_user 1 41 STUDENT, sample_user 2 42 TEACHER,
         (sample_user 3 43 ADMIN)\<lparr>u_notifications_enabled := False\<rparr>]
        (sample_notification (Some ''teacher''))) = [2]"
proof -
  let ?us = "[sample_user 1 41 STUDENT, sample_user 2 42 TEACHER,
         (sample_user 3 43 ADMIN)\<lparr>u_notifications_enabled := False\<rparr>]"
  let ?n = "sample_notification (Some ''teacher'')"
  have h: "UserRole_of_value ''dean'' = None" by (simp add: UserRole_of_value_def)
  have v: "map u_id (get_target_users ?us ?n) = [2]"
    by (simp add: get_target_users_def sample_user_def sample_notification_def
        UserRole_of_value_def Let_def)
  have n: "map u_id (get_target_users ?us (?n\<lparr>n_target_role := None\<rparr>)) = [1, 2]"
    by (simp add: get_target_users_def sample_user_def sample_notification_def Let_def)
  from invalid_role_filter_dropped [OF h, of ?us ?n]
  have "get_target_users ?us (?n\<lparr>n_target_role := Some ''dean''\<rparr>)
        = get_target_users ?us (?n\<lparr>n_target_role := None\<rparr>)"
    by (rule conjunct1)
  with n have "map u_id (get_target_users ?us (?n\<lparr>n_target_role := Some ''dean''\<rparr>)) = [1, 2]"
    by simp
  with h v show ?thesis by blast
qed

text \<open>
  Claim C7. The change in percent is \<open>round(((today - yesterday) / yesterday) * 100, 1)\<close>
  when yesterday's count is positive, 100 when it is zero and today's is positive, and 0
  when both are zero; 5 after 0 gives 100, and 5 after 10 gives \<open>-50.0\<close>.
\<close>

theorem change_percent_cases:
  "(0 < yesterday \<longrightarrow>
      requests_change_percent
        (get_dashboard_summary truediv mul round_nd (Some today) (Some yesterday) nu au)
      = PyFloat (round_nd (mul (truediv (today - yesterday) yesterday) 100) 1))
   \<and> (0 < today \<longrightarrow>
      requests_change_percent
        (get_dashboard_summary truediv mul round_nd (Some today) (Some 0) nu au) = PyInt 100)
   \<and> requests_change_percent
        (get_dashboard_summary truediv mul round_nd (Some 0) (Some 0) nu au) = PyInt 0
   \<and> requests_change_percent
        (get_dashboard_summary truediv mul round_nd (Some 5) (Some 0) nu au) = PyInt 100
   \<and> requests_change_percent
        (get_dashboard_summary exact_truediv exact_mul exact_round (Some 5) (Some 10) nu au)
      = PyFloat (- 50)"
proof -
  have e: "exact_round (exact_mul (exact_truediv (5 - 10) 10) 100) 1 = - 50"
    by (simp add: exact_round_def exact_mul_def exact_truediv_def round_half_even_def Let_def)
  show ?thesis
    using e by (simp add: get_dashboard_summary_def change_percent_def Let_def)
qed

theorem change_percent_cases_witness:
  "(0::int) < 10 \<and> (0::int) < 15
   \<and> requests_change_percent
        (get_dashboard_summary exact_truediv exact_mul exact_round (Some 15) (Some 10) None None)
      = PyFloat 50
   \<and> requests_change_percent
        (get_dashboard_summary exact_truediv exact_mul exact_round (Some 15) (Some 0) None None)
      = PyInt 100"
proof -
  have e: "exact_round (exact_mul (exact_truediv (15 - 10) 10) 100) 1 = 50"
    by (simp add: exact_round_def exact_mul_def exact_truediv_def round_half_even_def Let_def)
  show ?thesis
    using e change_percent_cases [of 10 exact_truediv exact_mul exact_round 15 None None]
    by simp
qed

section \<open>Properties of the FAQ service\<close>

lemma select_favorite_rows:
  assumes "select_favorite s u i = Inr rows"
  shows "sqlite_integer i
    \<and> filter (\<lambda>r. uf_user_id r = u \<and> uf_faq_item_id r = i) (favorites s) = rows"
  using assms by (simp add: select_favorite_def split: if_splits)

lemma add_to_favorites_new:
  assumes "select_favorite s u i = Inr []"
  shows "add_to_favorites s u i =
     Inr (True, s\<lparr>favorites := favorites s @
                      [\<lparr>uf_id = next_rowid (map uf_id (favorites s)), uf_user_id = u,
                        uf_faq_item_id = i\<rparr>]\<rparr>)"
  using assms by (simp add: add_to_favorites_def Let_def)

lemma add_to_favorites_existing:
  assumes "select_favorite s u i = Inr [row]"
  shows "add_to_favorites s u i = Inr (False, s)"
  using assms by (simp add: add_to_favorites_def)

lemma remove_from_favorites_existing:
  assumes "select_favorite s u i = Inr [row]"
  shows "remove_from_favorites s u i =
     Inr (True, s\<lparr>favorites := filter (\<lambda>r. uf_id r \<noteq> uf_id row) (favorites s)\<rparr>)"
  using assms by (simp add: remove_from_favorites_def)

lemma remove_from_favorites_absent:
  assumes "select_favorite s u i = Inr []"
  shows "remove_from_favorites s u i = Inr (False, s)"
  using assms by (simp add: remove_from_favorites_def)

lemma filter_subset_single:
  assumes "filter P xs = [x]"
  shows "filter P (filter (\<lambda>r. f r \<noteq> f x) xs) = []"
proof -
  have "filter P (filter (\<lambda>r. f r \<noteq> f x) xs) = filter (\<lambda>r. f r \<noteq> f x) (filter P xs)"
    by (simp add: conj_commute)
  then show ?thesis using assms by simp
qed

lemma select_after_remove:
  assumes "select_favorite s u i = Inr [row]"
  shows "select_favorite (s\<lparr>favorites := filter (\<lambda>r. uf_id r \<noteq> uf_id row) (favorites s)\<rparr>) u i
         = Inr []"
  using filter_subset_single[of "\<lambda>r. uf_user_id r = u \<and> uf_faq_item_id r = i" "favorites s" row uf_id]
    select_favorite_rows[OF assms]
  by (simp add: select_favorite_def)

lemma filter_fresh_key:
  assumes "k \<notin> set (map key rows)" "key row = k"
  shows "filter (\<lambda>r. key r \<noteq> key row) (rows @ [row]) = rows"
proof -
  have "\<forall>r\<in>set rows. key r \<noteq> k" using assms(1) by auto
  then have "filter (\<lambda>r. key r \<noteq> k) rows = rows" by (simp add: filter_id_conv)
  with assms(2) show ?thesis by simp
qed

text \<open>
  Claim C9. For a pair that is not a favourite, \<open>add_to_favorites\<close> returns \<open>True\<close> and
  stores the pair; a second call returns \<open>False\<close> and stores nothing. Removing the pair
  then returns \<open>True\<close> and deletes it; a second removal returns \<open>False\<close> without an
  error and changes nothing. The favourites are then what they were at the start.
\<close>

theorem favorites_add_remove:
  assumes "select_favorite s user_id faq_item_id = Inr []"
  shows "\<exists>s1 row s2.
      add_to_favorites s user_id faq_item_id = Inr (True, s1)
    \<and> favorites s1 = favorites s @ [row]
    \<and> uf_user_id row = user_id \<and> uf_faq_item_id row = faq_item_id
    \<and> select_favorite s1 user_id faq_item_id = Inr [row]
    \<and> is_favorite s1 user_id faq_item_id = Inr True
    \<and> add_to_favorites s1 user_id faq_item_id = Inr (False, s1)
    \<and> remove_from_favorites s1 user_id faq_item_id = Inr (True, s2)
    \<and> select_favorite s2 user_id faq_item_id = Inr []
    \<and> is_favorite s2 user_id faq_item_id = Inr False
    \<and> remove_from_favorites s2 user_id faq_item_id = Inr (False, s2)
    \<and> favorites s2 = favorites s"
proof -
  let ?row = "\<lparr>uf_id = next_rowid (map uf_id (favorites s)), uf_user_id = user_id,
               uf_faq_item_id = faq_item_id\<rparr>"
  let ?s1 = "s\<lparr>favorites := favorites s @ [?row]\<rparr>"
  let ?s2 = "?s1\<lparr>favorites := filter (\<lambda>r. uf_id r \<noteq> uf_id ?row) (favorites ?s1)\<rparr>"
  have a: "add_to_favorites s user_id faq_item_id = Inr (True, ?s1)"
    by (rule add_to_favorites_new[OF assms])
  have f1: "favorites ?s1 = favorites s @ [?row]" by simp
  have sel1: "select_favorite ?s1 user_id faq_item_id = Inr [?row]"
    using select_favorite_rows[OF assms] by (simp add: select_favorite_def)
  have isf1: "is_favorite ?s1 user_id faq_item_id = Inr True"
    by (simp add: is_favorite_def sel1)
  have a2: "add_to_favorites ?s1 user_id faq_item_id = Inr (False, ?s1)"
    by (rule add_to_favorites_existing[OF sel1])
  have r1: "remove_from_favorites ?s1 user_id faq_item_id = Inr (True, ?s2)"
    by (rule remove_from_favorites_existing[OF sel1])
  have sel2: "select_favorite ?s2 user_id faq_item_id = Inr []"
    by (rule select_after_remove[OF sel1])
  have isf2: "is_favorite ?s2 user_id faq_item_id = Inr False"
    by (simp only: is_favorite_def sel2) simp
  have r2: "remove_from_favorites ?s2 user_id faq_item_id = Inr (False, ?s2)"
    by (rule remove_from_favorites_absent[OF sel2])
  have "filter (\<lambda>r. uf_id r \<noteq> uf_id ?row) (favorites s @ [?row]) = favorites s"
    by (rule filter_fresh_key[OF next_rowid_fresh]) simp
  then have restored: "favorites ?s2 = favorites s" by simp
  have flds: "uf_user_id ?row = user_id \<and> uf_faq_item_id ?row = faq_item_id" by simp
  from a f1 flds sel1 isf1 a2 r1 sel2 isf2 r2 restored show ?thesis by blast
qed

theorem favorites_add_remove_witness:
  "select_favorite sample_faq 7 1 = Inr []
   \<and> (\<exists>s1 s2.
      add_to_favorites sample_faq 7 1 = Inr (True, s1)
    \<and> add_to_favorites s1 7 1 = Inr (False, s1)
    \<and> remove_from_favorites s1 7 1 = Inr (True, s2)
    \<and> remove_from_favorites s2 7 1 = Inr (False, s2)
    \<and> favorites s2 = favorites sample_faq)"
proof -
  have h: "select_favorite sample_faq 7 1 = Inr []"
    by (simp add: select_favorite_def sqlite_integer_def sample_faq_def)
  from favorites_add_remove [OF h] h show ?thesis by blast
qed

subsection \<open>Counters\<close>

lemma select_item_rows:
  assumes "select_item s i = Inr rows"
  shows "sqlite_integer i \<and> filter (\<lambda>x. f_id x = i) (faq_items s) = rows"
  using assms by (simp add: select_item_def split: if_splits)

lemma select_item_mem: "select_item s i = Inr [a] \<Longrightarrow> a \<in> set (faq_items s) \<and> f_id a = i"
proof -
  assume "select_item s i = Inr [a]"
  then have "a \<in> set (filter (\<lambda>x. f_id x = i) (faq_items s))"
    using select_item_rows[of s i "[a]"] by simp
  then show ?thesis by simp
qed

lemma select_item_same_items:
  "faq_items s' = faq_items s \<Longrightarrow> select_item s' k = select_item s k"
  by (simp add: select_item_def)

lemma set_kwarg_id: "\<not> names_counter_or_key kw \<Longrightarrow> f_id (set_kwarg jd item kw) = f_id item"
  by (cases kw) simp_all

lemma foldl_set_kwarg_id:
  "\<not> list_ex names_counter_or_key kws \<Longrightarrow> f_id (foldl (set_kwarg jd) item kws) = f_id item"
  by (induction kws arbitrary: item) (simp_all add: set_kwarg_id)

lemma set_kwarg_counters:
  "\<not> names_counter_or_key kw \<Longrightarrow> counters (set_kwarg jd item kw) = counters item"
  by (cases kw) (simp_all add: counters_def)

lemma foldl_set_kwarg_counters:
  "\<not> list_ex names_counter_or_key kws
   \<Longrightarrow> counters (foldl (set_kwarg jd) item kws) = counters item"
  by (induction kws arbitrary: item) (simp_all add: set_kwarg_counters)

lemma filter_map_keeps_key:
  assumes "\<And>x. f_id (g x) = f_id x"
  shows "filter (\<lambda>x. f_id x = k) (map g rows) = map g (filter (\<lambda>x. f_id x = k) rows)"
  using assms by (induction rows) simp_all

lemma map_sum_snd_InrD: "map_sum id snd x = Inr s' \<Longrightarrow> \<exists>res. x = Inr (res, s')"
  by (cases x) auto

lemma and_then_scalar_Some:
  assumes "and_then x scalar_one_or_none = Inr (Some item)"
  shows "x = Inr [item]"
proof (cases x)
  case (Inl e)
  with assms show ?thesis by simp
next
  case (Inr rows)
  with assms show ?thesis by (cases rows rule: scalar_one_or_none.cases) simp_all
qed

lemma create_item_stored:
  assumes "create_item jd s c q a kw l ord = Inr (res, s')"
  shows "s' = s\<lparr>faq_items := faq_items s @ [res]\<rparr>
         \<and> f_id res = next_rowid (map f_id (faq_items s))"
proof (cases "\<not> sqlite_integer c \<or> \<not> sqlite_integer ord")
  case True
  with assms show ?thesis by (simp add: create_item_def)
next
  case False
  define item where "item = \<lparr>f_id = next_rowid (map f_id (faq_items s)), f_category_id = c,
                     f_question = q, f_answer = a, f_keywords = kw,
                     f_links = (case l of
                                  None \<Rightarrow> None
                                | Some x \<Rightarrow> if x \<noteq> [] then Some (jd x) else None),
                     f_views_count = 0, f_helpful_count = 0, f_not_helpful_count = 0,
                     f_order = ord, f_is_active = True, f_is_pinned = False\<rparr>"
  have key: "f_id item = next_rowid (map f_id (faq_items s))" by (simp add: item_def)
  from False have "create_item jd s c q a kw l ord
                   = Inr (item, s\<lparr>faq_items := faq_items s @ [item]\<rparr>)"
    by (simp add: create_item_def Let_def item_def)
  from trans[OF assms[symmetric] this]
  have e: "Inr (res, s') = (Inr (item, s\<lparr>faq_items := faq_items s @ [item]\<rparr>) :: error + _)" .
  have "res = item" using e by simp
  moreover have "s' = s\<lparr>faq_items := faq_items s @ [item]\<rparr>" using e by simp
  ultimately show ?thesis using key by simp
qed

text \<open>One operation and the row with the key \<open>k\<close>.\<close>

lemma create_item_keeps:
  assumes sel: "select_item s k = Inr [b]"
    and r: "create_item jd s c q a kw l ord = Inr (res, s')"
  shows "select_item s' k = Inr [b]"
proof -
  from select_item_mem[OF sel] have "k \<in> set (map f_id (faq_items s))" by force
  from next_rowid_above[OF this] have ne: "next_rowid (map f_id (faq_items s)) \<noteq> k" by simp
  from create_item_stored[OF r] have s': "faq_items s' = faq_items s @ [res]"
      and key: "f_id res = next_rowid (map f_id (faq_items s))"
    by simp_all
  from select_item_rows[OF sel] ne show ?thesis
    by (simp add: select_item_def s' key)
qed

lemma update_item_keeps:
  assumes sel: "select_item s k = Inr [b]"
    and cf: "\<not> list_ex names_counter_or_key kwargs"
    and r: "update_item jd s i kwargs = Inr (res, s')"
  shows "\<exists>b'. select_item s' k = Inr [b'] \<and> counters b' = counters b"
proof (cases "and_then (select_item s i) scalar_one_or_none")
  case (Inl e)
  with r show ?thesis by (simp add: update_item_def)
next
  case (Inr found)
  show ?thesis
  proof (cases found)
    case None
    with Inr r have "s' = s" by (simp add: update_item_def)
    with sel show ?thesis by simp
  next
    case (Some item)
    let ?item = "foldl (set_kwarg jd) item kwargs"
    from Inr Some have "and_then (select_item s i) scalar_one_or_none = Inr (Some item)"
      by simp
    from and_then_scalar_Some[OF this] have seli: "select_item s i = Inr [item]" .
    have idi: "f_id item = i" using select_item_mem[OF seli] by simp
    have keep: "f_id ?item = f_id item" by (rule foldl_set_kwarg_id[OF cf])
    from Inr Some have u: "update_item jd s i kwargs =
       (if \<not> list_all kwarg_fits kwargs then Inl OverflowError
        else Inr (Some ?item, s\<lparr>faq_items := flush_item (f_id item) ?item (faq_items s)\<rparr>))"
      by (simp add: update_item_def Let_def keep)
    have "list_all kwarg_fits kwargs"
    proof (rule ccontr)
      assume "\<not> list_all kwarg_fits kwargs"
      with u r show False by simp
    qed
    with u r have "s' = s\<lparr>faq_items := flush_item (f_id item) ?item (faq_items s)\<rparr>"
      by simp
    then have s': "faq_items s' = flush_item (f_id item) ?item (faq_items s)" by simp
    have g: "\<And>x. f_id (if f_id x = f_id item then ?item else x) = f_id x"
      using keep by simp
    have "filter (\<lambda>x. f_id x = k) (faq_items s')
          = map (\<lambda>x. if f_id x = f_id item then ?item else x)
              (filter (\<lambda>x. f_id x = k) (faq_items s))"
      unfolding s' flush_item_def by (rule filter_map_keeps_key[OF g])
    also have "\<dots> = [if f_id b = f_id item then ?item else b]"
      using select_item_rows[OF sel] by simp
    finally have f: "filter (\<lambda>x. f_id x = k) (faq_items s')
          = [if f_id b = f_id item then ?item else b]" .
    have kk: "sqlite_integer k" using select_item_rows[OF sel] by simp
    show ?thesis
    proof (cases "f_id b = f_id item")
      case True
      with select_item_mem[OF sel] idi have "k = i" by simp
      with sel seli have ib: "item = b" by simp
      have cnt: "counters ?item = counters b"
        unfolding ib[symmetric] by (rule foldl_set_kwarg_counters[OF cf])
      from f True have "filter (\<lambda>x. f_id x = k) (faq_items s') = [?item]" by simp
      with kk have "select_item s' k = Inr [?item]" by (simp add: select_item_def)
      with cnt show ?thesis by blast
    next
      case False
      with f have "filter (\<lambda>x. f_id x = k) (faq_items s') = [b]" by simp
      with kk have "select_item s' k = Inr [b]" by (simp add: select_item_def)
      then show ?thesis by blast
    qed
  qed
qed

lemma delete_item_keeps:
  assumes sel: "select_item s k = Inr [b]" and ne: "i \<noteq> k"
    and r: "delete_item s i = Inr (res, s')"
  shows "select_item s' k = Inr [b]"
proof (cases "and_then (select_item s i) scalar_one_or_none")
  case (Inl e)
  with r show ?thesis by (simp add: delete_item_def)
next
  case (Inr found)
  show ?thesis
  proof (cases found)
    case None
    with Inr r have "s' = s" by (simp add: delete_item_def)
    with sel show ?thesis by simp
  next
    case (Some item)
    from Inr Some have "and_then (select_item s i) scalar_one_or_none = Inr (Some item)"
      by simp
    from select_item_mem[OF and_then_scalar_Some[OF this]] have idi: "f_id item = i" by simp
    from Inr Some r have
      "s' = s\<lparr>faq_items := filter (\<lambda>x. f_id x \<noteq> f_id item) (faq_items s)\<rparr>"
      by (simp add: delete_item_def)
    then have s': "faq_items s' = filter (\<lambda>x. f_id x \<noteq> f_id item) (faq_items s)" by simp
    have "filter (\<lambda>x. f_id x = k) (faq_items s')
          = filter (\<lambda>x. f_id x \<noteq> i) (filter (\<lambda>x. f_id x = k) (faq_items s))"
      by (simp add: s' idi conj_commute)
    also have "\<dots> = [b]"
      using select_item_rows[OF sel] select_item_mem[OF sel] ne by simp
    finally show ?thesis
      using select_item_rows[OF sel] by (simp add: select_item_def)
  qed
qed

lemma add_one_keeps:
  assumes sel: "select_item s k = Inr [b]"
    and g: "\<And>x. f_id (bump x) = f_id x \<and> counters_le x (bump x)"
    and r: "add_one counter bump s i = Inr s'"
  shows "\<exists>b'. select_item s' k = Inr [b'] \<and> counters_le b b'"
proof -
  from r have "s' = s\<lparr>faq_items := map (\<lambda>x. if f_id x = i then bump x else x) (faq_items s)\<rparr>"
    by (simp add: add_one_def split: if_splits)
  then have s': "faq_items s' = map (\<lambda>x. if f_id x = i then bump x else x) (faq_items s)"
    by simp
  have gi: "\<And>x. f_id (if f_id x = i then bump x else x) = f_id x" using g by simp
  have "filter (\<lambda>x. f_id x = k) (faq_items s')
        = map (\<lambda>x. if f_id x = i then bump x else x) (filter (\<lambda>x. f_id x = k) (faq_items s))"
    unfolding s' by (rule filter_map_keeps_key[OF gi])
  also have "\<dots> = [if f_id b = i then bump b else b]"
    using select_item_rows[OF sel] by simp
  finally have f: "filter (\<lambda>x. f_id x = k) (faq_items s') = [if f_id b = i then bump b else b]" .
  have "counters_le b (if f_id b = i then bump b else b)"
    using g[of b] by (simp add: counters_le_def)
  with f select_item_rows[OF sel] show ?thesis by (simp add: select_item_def)
qed

lemma increment_view_keeps:
  assumes "select_item s k = Inr [b]" "increment_view s i = Inr s'"
  shows "\<exists>b'. select_item s' k = Inr [b'] \<and> counters_le b b'"
  using assms(2) unfolding increment_view_def
  by (rule add_one_keeps[OF assms(1), rotated]) (simp add: counters_le_def)

lemma rate_item_keeps:
  assumes sel: "select_item s k = Inr [b]" and r: "rate_item s i h = Inr s'"
  shows "\<exists>b'. select_item s' k = Inr [b'] \<and> counters_le b b'"
proof (cases h)
  case True
  with r have "add_one f_helpful_count (\<lambda>i. i\<lparr>f_helpful_count := f_helpful_count i + 1\<rparr>) s i
               = Inr s'"
    by (simp add: rate_item_def)
  then show ?thesis
    by (rule add_one_keeps[OF sel, rotated]) (simp add: counters_le_def)
next
  case False
  with r have "add_one f_not_helpful_count
                 (\<lambda>i. i\<lparr>f_not_helpful_count := f_not_helpful_count i + 1\<rparr>) s i = Inr s'"
    by (simp add: rate_item_def)
  then show ?thesis
    by (rule add_one_keeps[OF sel, rotated]) (simp add: counters_le_def)
qed

lemma add_to_favorites_items:
  assumes "add_to_favorites s u i = Inr (res, s')"
  shows "faq_items s' = faq_items s"
proof (cases "and_then (select_favorite s u i) scalar_one_or_none")
  case (Inl e)
  with assms show ?thesis by (simp add: add_to_favorites_def)
next
  case (Inr found)
  show ?thesis
  proof (cases found)
    case None
    with Inr assms have
      "s' = s\<lparr>favorites := favorites s @
              [\<lparr>uf_id = next_rowid (map uf_id (favorites s)), uf_user_id = u,
                uf_faq_item_id = i\<rparr>]\<rparr>"
      by (simp add: add_to_favorites_def Let_def)
    then show ?thesis by simp
  next
    case (Some existing)
    with Inr assms have "s' = s" by (simp add: add_to_favorites_def)
    then show ?thesis by simp
  qed
qed

lemma remove_from_favorites_items:
  assumes "remove_from_favorites s u i = Inr (res, s')"
  shows "faq_items s' = faq_items s"
proof (cases "and_then (select_favorite s u i) scalar_one_or_none")
  case (Inl e)
  with assms show ?thesis by (simp add: remove_from_favorites_def)
next
  case (Inr found)
  show ?thesis
  proof (cases found)
    case None
    with Inr assms have "s' = s" by (simp add: remove_from_favorites_def)
    then show ?thesis by simp
  next
    case (Some favorite)
    with Inr assms have
      "s' = s\<lparr>favorites := filter (\<lambda>r. uf_id r \<noteq> uf_id favorite) (favorites s)\<rparr>"
      by (simp add: remove_from_favorites_def)
    then show ?thesis by simp
  qed
qed

lemma apply_op_same_counters:
  assumes sel: "select_item s k = Inr [b]"
    and cf: "counter_free op" and ki: "keeps_item k op" and nv: "\<not> view_or_rating op"
    and r: "apply_op jd s op = Inr s'"
  shows "\<exists>b'. select_item s' k = Inr [b'] \<and> counters b' = counters b"
proof (cases op)
  case (Create_item c q a kw l ord)
  with r have "map_sum id snd (create_item jd s c q a kw l ord) = Inr s'" by simp
  from map_sum_snd_InrD[OF this]
  obtain res where "create_item jd s c q a kw l ord = Inr (res, s')" by blast
  from create_item_keeps[OF sel this] show ?thesis by simp
next
  case (Update_item i kwargs)
  with r have "map_sum id snd (update_item jd s i kwargs) = Inr s'" by simp
  from map_sum_snd_InrD[OF this]
  obtain res where u: "update_item jd s i kwargs = Inr (res, s')" by blast
  from cf Update_item have "\<not> list_ex names_counter_or_key kwargs" by simp
  from update_item_keeps[OF sel this u] show ?thesis .
next
  case (Delete_item i)
  with r have "map_sum id snd (delete_item s i) = Inr s'" by simp
  from map_sum_snd_InrD[OF this]
  obtain res where d: "delete_item s i = Inr (res, s')" by blast
  from ki Delete_item have "i \<noteq> k" by simp
  from delete_item_keeps[OF sel this d] show ?thesis by simp
next
  case (Increment_view i)
  with nv show ?thesis by simp
next
  case (Rate_item i h)
  with nv show ?thesis by simp
next
  case (Add_to_favorites u i)
  with r have "map_sum id snd (add_to_favorites s u i) = Inr s'" by simp
  from map_sum_snd_InrD[OF this]
  obtain res where "add_to_favorites s u i = Inr (res, s')" by blast
  from select_item_same_items[OF add_to_favorites_items[OF this], of k] sel
  show ?thesis by simp
next
  case (Remove_from_favorites u i)
  with r have "map_sum id snd (remove_from_favorites s u i) = Inr s'" by simp
  from map_sum_snd_InrD[OF this]
  obtain res where "remove_from_favorites s u i = Inr (res, s')" by blast
  from select_item_same_items[OF remove_from_favorites_items[OF this], of k] sel
  show ?thesis by simp
qed

lemma apply_op_counters_le:
  assumes sel: "select_item s k = Inr [b]"
    and cf: "counter_free op" and ki: "keeps_item k op"
    and r: "apply_op jd s op = Inr s'"
  shows "\<exists>b'. select_item s' k = Inr [b'] \<and> counters_le b b'"
proof (cases "view_or_rating op")
  case False
  from apply_op_same_counters[OF sel cf ki False r]
  obtain b' where "select_item s' k = Inr [b']" "counters b' = counters b" by blast
  then show ?thesis by (auto simp add: counters_def counters_le_def)
next
  case True
  show ?thesis
  proof (cases op)
    case (Increment_view i)
    with r have "increment_view s i = Inr s'" by simp
    from increment_view_keeps[OF sel this] show ?thesis .
  next
    case (Rate_item i h)
    with r have "rate_item s i h = Inr s'" by simp
    from rate_item_keeps[OF sel this] show ?thesis .
  qed (use True in simp_all)
qed

lemma run_ops_counters_le:
  assumes "select_item s k = Inr [a]" "list_all counter_free ops"
    "list_all (keeps_item k) ops" "run_ops jd s ops = Inr s'"
  shows "\<exists>c. select_item s' k = Inr [c] \<and> counters_le a c"
  using assms
proof (induction ops arbitrary: s a)
  case Nil
  then show ?case by (simp add: counters_le_def)
next
  case (Cons op ops)
  from Cons.prems have cf: "counter_free op" "list_all counter_free ops"
    and ki: "keeps_item k op" "list_all (keeps_item k) ops" by simp_all
  show ?case
  proof (cases "apply_op jd s op")
    case (Inl e)
    with Cons.prems(4) show ?thesis by simp
  next
    case (Inr s1)
    with Cons.prems(4) have rest: "run_ops jd s1 ops = Inr s'" by simp
    from apply_op_counters_le[OF Cons.prems(1) cf(1) ki(1) Inr]
    obtain b where b: "select_item s1 k = Inr [b]" "counters_le a b" by blast
    from Cons.IH[OF b(1) cf(2) ki(2) rest]
    obtain c where c: "select_item s' k = Inr [c]" "counters_le b c" by blast
    from b(2) c(2) have "counters_le a c" by (simp add: counters_le_def)
    with c(1) show ?thesis by blast
  qed
qed

lemma add_one_counters:
  assumes "\<And>x. counters (bump x) = after x"
  shows "map_sum id (map counters \<circ> faq_items) (add_one counter bump s i) =
     (if \<not> sqlite_integer i then Inl OverflowError
      else if list_ex (\<lambda>x. f_id x = i \<and> \<not> sqlite_integer (counter x + 1)) (faq_items s)
      then Inl IntegerBecomesReal
      else Inr (map (\<lambda>x. if f_id x = i then after x else counters x) (faq_items s)))"
  using assms by (simp add: add_one_def comp_def if_distrib[of counters] cong: if_cong)

lemma increment_view_counters:
  "map_sum id (map counters \<circ> faq_items) (increment_view s i) =
     (if \<not> sqlite_integer i then Inl OverflowError
      else if list_ex (\<lambda>x. f_id x = i \<and> \<not> sqlite_integer (f_views_count x + 1)) (faq_items s)
      then Inl IntegerBecomesReal
      else Inr (map (\<lambda>x. if f_id x = i
                          then (f_views_count x + 1, f_helpful_count x, f_not_helpful_count x)
                          else counters x) (faq_items s)))"
  unfolding increment_view_def by (rule add_one_counters) (simp add: counters_def)

lemma rate_item_helpful_counters:
  "map_sum id (map counters \<circ> faq_items) (rate_item s i True) =
     (if \<not> sqlite_integer i then Inl OverflowError
      else if list_ex (\<lambda>x. f_id x = i \<and> \<not> sqlite_integer (f_helpful_count x + 1)) (faq_items s)
      then Inl IntegerBecomesReal
      else Inr (map (\<lambda>x. if f_id x = i
                          then (f_views_count x, f_helpful_count x + 1, f_not_helpful_count x)
                          else counters x) (faq_items s)))"
  unfolding rate_item_def if_True by (rule add_one_counters) (simp add: counters_def)

lemma rate_item_not_helpful_counters:
  "map_sum id (map counters \<circ> faq_items) (rate_item s i False) =
     (if \<not> sqlite_integer i then Inl OverflowError
      else if list_ex (\<lambda>x. f_id x = i \<and> \<not> sqlite_integer (f_not_helpful_count x + 1))
                (faq_items s)
      then Inl IntegerBecomesReal
      else Inr (map (\<lambda>x. if f_id x = i
                          then (f_views_count x, f_helpful_count x, f_not_helpful_count x + 1)
                          else counters x) (faq_items s)))"
  unfolding rate_item_def if_False by (rule add_one_counters) (simp add: counters_def)

lemma update_item_sets_counters:
  assumes "select_item s k = Inr [a]" "sqlite_integer v" "sqlite_integer h" "sqlite_integer n"
  shows "map_sum id (map_option counters \<circ> fst)
           (update_item jd s k [Kw_views_count v, Kw_helpful_count h, Kw_not_helpful_count n])
         = Inr (Some (v, h, n))"
  using assms by (simp add: update_item_def Let_def counters_def)

lemma create_item_counters:
  assumes "sqlite_integer c" "sqlite_integer ord"
  shows "map_sum id ((\<lambda>x. (f_id x, counters x)) \<circ> fst) (create_item jd s c q an kw l ord)
         = Inr (next_rowid (map f_id (faq_items s)), 0, 0, 0)"
  using assms by (simp add: create_item_def Let_def counters_def)

text \<open>
  Claim C8, as the code has it. \<open>increment_view\<close> adds exactly 1 to \<open>views_count\<close> of
  the item and \<open>rate_item\<close> exactly 1 to \<open>helpful_count\<close> or \<open>not_helpful_count\<close>
  according to its flag, each leaving the other counters and the other items as they
  were; the call raises \<open>OverflowError\<close> for a key that is not a 64-bit integer, and a
  counter at \<open>2\<^sup>6\<^sup>3 - 1\<close> leaves the integers. An item that is stored and not deleted
  keeps its key and its counters under every other writing operation, as long as an
  \<open>update_item\<close> names neither a counter nor the primary key among its keyword arguments;
  over every sequence of such operations that raises nothing the item stays stored and
  its counters never decrease. \<open>create_item\<close> stores the new item with all three counters
  0 under the key after the largest stored key, which a deleted last item had before. An
  \<open>update_item\<close> that names a counter stores the value it is given.
\<close>

theorem counters_change_only_by_view_and_rating:
  "map_sum id (map counters \<circ> faq_items) (increment_view s i) =
     (if \<not> sqlite_integer i then Inl OverflowError
      else if list_ex (\<lambda>x. f_id x = i \<and> \<not> sqlite_integer (f_views_count x + 1)) (faq_items s)
      then Inl IntegerBecomesReal
      else Inr (map (\<lambda>x. if f_id x = i
                          then (f_views_count x + 1, f_helpful_count x, f_not_helpful_count x)
                          else counters x) (faq_items s)))
   \<and> map_sum id (map counters \<circ> faq_items) (rate_item s i True) =
     (if \<not> sqlite_integer i then Inl OverflowError
      else if list_ex (\<lambda>x. f_id x = i \<and> \<not> sqlite_integer (f_helpful_count x + 1)) (faq_items s)
      then Inl IntegerBecomesReal
      else Inr (map (\<lambda>x. if f_id x = i
                          then (f_views_count x, f_helpful_count x + 1, f_not_helpful_count x)
                          else counters x) (faq_items s)))
   \<and> map_sum id (map counters \<circ> faq_items) (rate_item s i False) =
     (if \<not> sqlite_integer i then Inl OverflowError
      else if list_ex (\<lambda>x. f_id x = i \<and> \<not> sqlite_integer (f_not_helpful_count x + 1))
                (faq_items s)
      then Inl IntegerBecomesReal
      else Inr (map (\<lambda>x. if f_id x = i
                          then (f_views_count x, f_helpful_count x, f_not_helpful_count x + 1)
                          else counters x) (faq_items s)))
   \<and> (select_item s k = Inr [a] \<and> counter_free op \<and> keeps_item k op \<and> \<not> view_or_rating op
        \<and> apply_op jd s op = Inr s1
        \<longrightarrow> (\<exists>b. select_item s1 k = Inr [b] \<and> counters b = counters a))
   \<and> (select_item s k = Inr [a] \<and> list_all counter_free ops \<and> list_all (keeps_item k) ops
        \<and> run_ops jd s ops = Inr s2
        \<longrightarrow> (\<exists>c. select_item s2 k = Inr [c] \<and> counters_le a c))
   \<and> (sqlite_integer cat \<and> sqlite_integer ord
        \<longrightarrow> map_sum id ((\<lambda>x. (f_id x, counters x)) \<circ> fst) (create_item jd s cat q an kw l ord)
            = Inr (next_rowid (map f_id (faq_items s)), 0, 0, 0))
   \<and> (select_item s k = Inr [a] \<and> sqlite_integer v \<and> sqlite_integer h \<and> sqlite_integer n
        \<longrightarrow> map_sum id (map_option counters \<circ> fst)
              (update_item jd s k [Kw_views_count v, Kw_helpful_count h, Kw_not_helpful_count n])
            = Inr (Some (v, h, n)))"
proof -
  have single: "select_item s k = Inr [a] \<and> counter_free op \<and> keeps_item k op
        \<and> \<not> view_or_rating op \<and> apply_op jd s op = Inr s1
        \<longrightarrow> (\<exists>b. select_item s1 k = Inr [b] \<and> counters b = counters a)"
  proof (intro impI, elim conjE)
    assume "select_item s k = Inr [a]" "counter_free op" "keeps_item k op"
      "\<not> view_or_rating op" "apply_op jd s op = Inr s1"
    then show "\<exists>b. select_item s1 k = Inr [b] \<and> counters b = counters a"
      by (rule apply_op_same_counters)
  qed
  have seq: "select_item s k = Inr [a] \<and> list_all counter_free ops
        \<and> list_all (keeps_item k) ops \<and> run_ops jd s ops = Inr s2
        \<longrightarrow> (\<exists>c. select_item s2 k = Inr [c] \<and> counters_le a c)"
  proof (intro impI, elim conjE)
    assume "select_item s k = Inr [a]" "list_all counter_free ops"
      "list_all (keeps_item k) ops" "run_ops jd s ops = Inr s2"
    then show "\<exists>c. select_item s2 k = Inr [c] \<and> counters_le a c"
      by (rule run_ops_counters_le)
  qed
  have cre: "sqlite_integer cat \<and> sqlite_integer ord
        \<longrightarrow> map_sum id ((\<lambda>x. (f_id x, counters x)) \<circ> fst) (create_item jd s cat q an kw l ord)
            = Inr (next_rowid (map f_id (faq_items s)), 0, 0, 0)"
  proof (intro impI, elim conjE)
    assume "sqlite_integer cat" "sqlite_integer ord"
    then show "map_sum id ((\<lambda>x. (f_id x, counters x)) \<circ> fst)
                 (create_item jd s cat q an kw l ord)
               = Inr (next_rowid (map f_id (faq_items s)), 0, 0, 0)"
      by (rule create_item_counters)
  qed
  have upd: "select_item s k = Inr [a] \<and> sqlite_integer v \<and> sqlite_integer h
        \<and> sqlite_integer n
        \<longrightarrow> map_sum id (map_option counters \<circ> fst)
              (update_item jd s k [Kw_views_count v, Kw_helpful_count h, Kw_not_helpful_count n])
            = Inr (Some (v, h, n))"
  proof (intro impI, elim conjE)
    assume "select_item s k = Inr [a]" "sqlite_integer v" "sqlite_integer h" "sqlite_integer n"
    then show "map_sum id (map_option counters \<circ> fst)
              (update_item jd s k [Kw_views_count v, Kw_helpful_count h, Kw_not_helpful_count n])
            = Inr (Some (v, h, n))"
      by (rule update_item_sets_counters)
  qed
  show ?thesis
    by (intro conjI)
       (rule increment_view_counters, rule rate_item_helpful_counters,
        rule rate_item_not_helpful_counters, rule single, rule seq, rule cre, rule upd)
qed

lemma sample_ops_run:
  "run_ops no_json sample_faq sample_ops =
     Inr \<lparr>faq_items =
            [(sample_item 1 ''abcd'' True 6)
               \<lparr>f_is_pinned := True, f_helpful_count := 3, f_not_helpful_count := 2\<rparr>,
             \<lparr>f_id = 3, f_category_id = 1, f_question = ''new'', f_answer = ''answer'',
              f_keywords = None, f_links = None, f_views_count = 0, f_helpful_count = 0,
              f_not_helpful_count = 0, f_order = 0, f_is_active = True, f_is_pinned = False\<rparr>],
          favorites = [\<lparr>uf_id = 1, uf_user_id = 7, uf_faq_item_id = 1\<rparr>]\<rparr>"
  by (simp add: sample_ops_def sample_faq_def sample_item_def increment_view_def rate_item_def
      add_one_def update_item_def delete_item_def create_item_def add_to_favorites_def
      select_item_def select_favorite_def flush_item_def sqlite_integer_def Let_def)

theorem counters_change_only_by_view_and_rating_witness:
  "select_item sample_faq 1 = Inr [sample_item 1 ''abc'' True 5]
   \<and> list_all counter_free sample_ops \<and> list_all (keeps_item 1) sample_ops
   \<and> (\<exists>s2 c. run_ops no_json sample_faq sample_ops = Inr s2 \<and> select_item s2 1 = Inr [c]
         \<and> counters c = (6, 3, 2) \<and> counters_le (sample_item 1 ''abc'' True 5) c)
   \<and> counter_free (Delete_item 2) \<and> keeps_item 1 (Delete_item 2)
   \<and> \<not> view_or_rating (Delete_item 2)
   \<and> (\<exists>s1 b. apply_op no_json sample_faq (Delete_item 2) = Inr s1
         \<and> select_item s1 1 = Inr [b]
         \<and> counters b = counters (sample_item 1 ''abc'' True 5))"
proof -
  let ?a = "sample_item 1 ''abc'' True 5"
  let ?c = "(sample_item 1 ''abcd'' True 6)
               \<lparr>f_is_pinned := True, f_helpful_count := 3, f_not_helpful_count := 2\<rparr>"
  let ?s1 = "sample_faq\<lparr>faq_items := [?a]\<rparr>"
  have cf: "list_all counter_free sample_ops" by (simp add: sample_ops_def)
  have ki: "list_all (keeps_item 1) sample_ops" by (simp add: sample_ops_def)
  have sa: "select_item sample_faq 1 = Inr [?a]"
    by (simp add: select_item_def sample_faq_def sample_item_def sqlite_integer_def)
  obtain s2 where r: "run_ops no_json sample_faq sample_ops = Inr s2"
    and sc: "select_item s2 1 = Inr [?c]"
    using sample_ops_run by (simp add: select_item_def sample_item_def sqlite_integer_def)
  have cc: "counters ?c = (6, 3, 2)" by (simp add: counters_def sample_item_def)
  have d: "apply_op no_json sample_faq (Delete_item 2) = Inr ?s1"
    by (simp add: delete_item_def select_item_def sample_faq_def sample_item_def
        sqlite_integer_def)
  have sb: "select_item ?s1 1 = Inr [?a]"
    by (simp add: select_item_def sample_item_def sqlite_integer_def)
  have f: "counter_free (Delete_item 2) \<and> keeps_item 1 (Delete_item 2)
           \<and> \<not> view_or_rating (Delete_item 2)" by simp
  note t = counters_change_only_by_view_and_rating
    [where s = sample_faq and k = 1 and a = ?a and op = "Delete_item 2" and jd = no_json
       and ?s1.0 = ?s1 and ops = sample_ops and ?s2.0 = s2]
  from t sa cf ki r have "\<exists>c. select_item s2 1 = Inr [c] \<and> counters_le ?a c" by blast
  with sc have le: "counters_le ?a ?c" by simp
  from t sa f d have "\<exists>b. select_item ?s1 1 = Inr [b] \<and> counters b = counters ?a" by blast
  with sb have eq: "counters ?a = counters ?a" by simp
  from sa cf ki r sc cc le f d sb eq show ?thesis by blast
qed

theorem update_item_resets_counter_counterexample:
  "faq_items sample_faq = [sample_item 1 ''abc'' True 5, sample_item 2 ''ab'' True 0]
   \<and> update_item no_json sample_faq 1 [Kw_views_count 0] =
      Inr (Some (sample_item 1 ''abc'' True 0),
           sample_faq\<lparr>faq_items := [sample_item 1 ''abc'' True 0, sample_item 2 ''ab'' True 0]\<rparr>)
   \<and> run_ops no_json sample_faq [Delete_item 2, Create_item 1 ''new'' ''answer'' None None 0] =
      Inr (sample_faq\<lparr>faq_items :=
             [sample_item 1 ''abc'' True 5,
              \<lparr>f_id = 2, f_category_id = 1, f_question = ''new'', f_answer = ''answer'',
               f_keywords = None, f_links = None, f_views_count = 0, f_helpful_count = 0,
               f_not_helpful_count = 0, f_order = 0, f_is_active = True,
               f_is_pinned = False\<rparr>]\<rparr>)"
  by (simp add: update_item_def delete_item_def create_item_def select_item_def flush_item_def
      sample_faq_def sample_item_def sqlite_integer_def Let_def)

section \<open>Properties of the fuzzy search\<close>

lemma set_insort_desc: "set (insort_desc f x xs) = insert x (set xs)"
  by (induction xs) auto

lemma set_sort_desc: "set (sort_desc f xs) = set xs"
  by (induction xs) (simp_all add: sort_desc_def set_insort_desc)

lemma length_insort_desc: "length (insort_desc f x xs) = Suc (length xs)"
  by (induction xs) auto

lemma length_sort_desc: "length (sort_desc f xs) = length xs"
  by (induction xs) (simp_all add: sort_desc_def length_insort_desc)

lemma sorted_insort_desc:
  "sorted_wrt (\<lambda>a b. f b \<le> f a) xs \<Longrightarrow> sorted_wrt (\<lambda>a b. f b \<le> f a) (insort_desc f x xs)"
  by (induction xs) (auto simp add: set_insort_desc)

lemma sorted_sort_desc: "sorted_wrt (\<lambda>a b. f b \<le> f a) (sort_desc f xs)"
  by (induction xs) (simp_all add: sort_desc_def sorted_insort_desc)

lemma filter_insort_desc:
  "filter (\<lambda>y. f y = k) (insort_desc f x xs) = filter (\<lambda>y. f y = k) (x # xs)"
  by (induction xs) auto

lemma sort_desc_stable:
  "filter (\<lambda>y. f y = k) (sort_desc f xs) = filter (\<lambda>y. f y = k) xs"
  by (induction xs) (simp_all add: sort_desc_def filter_insort_desc)

lemma insort_desc_sorted_id:
  "sorted_wrt (\<lambda>a b. f b \<le> f a) (x # xs) \<Longrightarrow> insort_desc f x xs = x # xs"
  by (cases xs) auto

lemma sort_desc_sorted_id:
  "sorted_wrt (\<lambda>a b. f b \<le> f a) xs \<Longrightarrow> sort_desc f xs = xs"
proof (induction xs)
  case Nil
  then show ?case by (simp add: sort_desc_def)
next
  case (Cons x xs)
  then have "sort_desc f xs = xs" by simp
  then have "sort_desc f (x # xs) = insort_desc f x xs" by (simp add: sort_desc_def)
  with Cons.prems show ?case by (simp only: insort_desc_sorted_id)
qed

lemma insort_desc_map:
  "insort_desc f (g x) (map g xs) = map g (insort_desc (\<lambda>y. f (g y)) x xs)"
  by (induction xs) auto

lemma sort_desc_map: "sort_desc f (map g xs) = map g (sort_desc (\<lambda>y. f (g y)) xs)"
  by (induction xs) (simp_all add: sort_desc_def insort_desc_map)

lemma filter_sorted_desc_takeWhile:
  fixes f :: "'a \<Rightarrow> 's::linorder"
  shows "sorted_wrt (\<lambda>a b. f b \<le> f a) xs
    \<Longrightarrow> filter (\<lambda>x. t \<le> f x) xs = takeWhile (\<lambda>x. t \<le> f x) xs"
proof (induction xs)
  case Nil
  then show ?case by simp
next
  case (Cons x xs)
  show ?case
  proof (cases "t \<le> f x")
    case True
    with Cons show ?thesis by simp
  next
    case False
    have "\<forall>y\<in>set xs. \<not> t \<le> f y"
    proof
      fix y assume "y \<in> set xs"
      with Cons.prems have "f y \<le> f x" by simp
      with False show "\<not> t \<le> f y" by auto
    qed
    then have "filter (\<lambda>x. t \<le> f x) xs = []" by (simp add: filter_empty_conv)
    with False show ?thesis by simp
  qed
qed

lemma takeWhile_take_commute: "takeWhile P (take n xs) = take n (takeWhile P xs)"
proof (induction xs arbitrary: n)
  case Nil
  then show ?case by simp
next
  case (Cons x xs)
  then show ?case by (cases n) simp_all
qed

lemma sorted_desc_take: "sorted_wrt R xs \<Longrightarrow> sorted_wrt R (take n xs)"
proof -
  assume "sorted_wrt R xs"
  then have "sorted_wrt R (take n xs @ drop n xs)" by simp
  then show ?thesis by (simp only: sorted_wrt_append)
qed

lemma prefetch_loses_nothing:
  fixes f :: "'a \<Rightarrow> 's::linorder"
  assumes "sorted_wrt (\<lambda>a b. f b \<le> f a) xs"
  shows "take n (sort_desc f (filter (\<lambda>x. t \<le> f x) (take (n * 2) xs)))
         = take n (filter (\<lambda>x. t \<le> f x) xs)"
proof -
  let ?P = "\<lambda>x. t \<le> f x"
  have s2: "sorted_wrt (\<lambda>a b. f b \<le> f a) (take (n * 2) xs)"
    using assms by (rule sorted_desc_take)
  then have s3: "sorted_wrt (\<lambda>a b. f b \<le> f a) (filter ?P (take (n * 2) xs))"
    by (rule sorted_wrt_filter)
  have "take n (sort_desc f (filter ?P (take (n * 2) xs))) = take n (filter ?P (take (n * 2) xs))"
    by (simp only: sort_desc_sorted_id[OF s3])
  also have "\<dots> = take n (takeWhile ?P (take (n * 2) xs))"
    by (simp only: filter_sorted_desc_takeWhile[OF s2])
  also have "\<dots> = take n (take (n * 2) (takeWhile ?P xs))"
    by (simp only: takeWhile_take_commute)
  also have "\<dots> = take n (takeWhile ?P xs)" by (simp add: min_def)
  also have "\<dots> = take n (filter ?P xs)"
    by (simp only: filter_sorted_desc_takeWhile[OF assms])
  finally show ?thesis .
qed

lemma dict_get_distinct:
  "distinct (map fst d) \<Longrightarrow> (k, v) \<in> set d \<Longrightarrow> dict_get d k = Inr v"
  by (induction d) (auto simp add: rev_image_eqI)

lemma collect_results_map:
  fixes scorer :: "string \<Rightarrow> string \<Rightarrow> 's::linorder"
  assumes "distinct (map fst sd)" "set ys \<subseteq> set sd"
  shows "collect_results t sd (map (\<lambda>(key, data). (snd data, scorer q (snd data), key)) ys)
         = Inr (filter (\<lambda>c. t \<le> snd c) (scored_pool scorer q ys))"
  using assms(2)
proof (induction ys)
  case Nil
  then show ?case by (simp add: scored_pool_def)
next
  case (Cons y ys)
  obtain k obj tx where y: "y = (k, obj, tx)" by (cases y) auto
  with Cons.prems have "(k, (obj, tx)) \<in> set sd" by simp
  from dict_get_distinct[OF assms(1) this] have g: "dict_get sd k = Inr (obj, tx)" .
  from Cons have ih: "collect_results t sd
       (map (\<lambda>(key, data). (snd data, scorer q (snd data), key)) ys)
         = Inr (filter (\<lambda>c. t \<le> snd c) (scored_pool scorer q ys))" by simp
  show ?case by (simp add: y g ih scored_pool_def)
qed

lemma rank_matches_ranked:
  fixes scorer :: "string \<Rightarrow> string \<Rightarrow> 's::linorder"
  assumes d: "distinct (map fst sd)"
  shows "rank_matches scorer sd q n t = Inr (ranked n t (scored_pool scorer q sd))"
proof -
  let ?sc = "\<lambda>e. scorer q (snd (snd e))"
  let ?to3 = "\<lambda>(key, data). (snd data, scorer q (snd data), key)"
  let ?S = "sort_desc ?sc sd"
  have texts: "map (\<lambda>(key, text). (text, scorer q text, key))
                 (map (\<lambda>(key, data). (key, snd data)) sd) = map ?to3 sd"
    by (simp add: case_prod_beta)
  have sorted3: "sort_desc (\<lambda>(text, score, key). score) (map ?to3 sd) = map ?to3 ?S"
    by (simp add: sort_desc_map case_prod_beta)
  have m: "process_extract scorer q (map (\<lambda>(key, data). (key, snd data)) sd) (n * 2)
           = map ?to3 (take (n * 2) ?S)"
    by (simp only: process_extract_def texts sorted3 take_map)
  have sub: "set (take (n * 2) ?S) \<subseteq> set sd"
    using set_take_subset[of "n * 2" ?S] by (simp add: set_sort_desc)
  have c: "collect_results t sd (map ?to3 (take (n * 2) ?S))
           = Inr (filter (\<lambda>c. t \<le> snd c) (scored_pool scorer q (take (n * 2) ?S)))"
    by (rule collect_results_map[OF d sub])
  have pool: "sort_desc snd (scored_pool scorer q sd) = scored_pool scorer q ?S"
    by (simp add: scored_pool_def sort_desc_map case_prod_beta)
  have tk: "scored_pool scorer q (take (n * 2) ?S) = take (n * 2) (scored_pool scorer q ?S)"
    by (simp add: scored_pool_def take_map)
  have srt: "sorted_wrt (\<lambda>a b. snd b \<le> snd a) (scored_pool scorer q ?S)"
    unfolding pool[symmetric] by (rule sorted_sort_desc)
  have "rank_matches scorer sd q n t
        = Inr (take n (sort_desc snd (filter (\<lambda>c. t \<le> snd c)
                 (take (n * 2) (scored_pool scorer q ?S)))))"
    by (simp add: rank_matches_def Let_def m c tk)
  also have "\<dots> = Inr (take n (filter (\<lambda>c. t \<le> snd c) (scored_pool scorer q ?S)))"
    by (simp only: prefetch_loses_nothing[OF srt])
  finally show ?thesis by (simp add: ranked_def pool)
qed


lemma dict_set_keys:
  "map fst (dict_set k v d) = (if k \<in> set (map fst d) then map fst d else map fst d @ [k])"
proof (induction d)
  case Nil
  then show ?case by simp
next
  case (Cons e d)
  obtain k' v' where e: "e = (k', v')" by (cases e)
  show ?case
  proof (cases "k' = k")
    case True
    then show ?thesis by (simp add: e)
  next
    case False
    with Cons show ?thesis by (simp add: e)
  qed
qed

lemma dict_set_distinct: "distinct (map fst d) \<Longrightarrow> distinct (map fst (dict_set k v d))"
  by (simp add: dict_set_keys)

lemma foldl_dict_set_distinct:
  "distinct (map fst d)
   \<Longrightarrow> distinct (map fst (foldl (\<lambda>sd x. dict_set (key x) (x, txt_of x) sd) d xs))"
  by (induction xs arbitrary: d) (simp_all add: dict_set_distinct)

lemma dict_set_fresh: "k \<notin> set (map fst d) \<Longrightarrow> dict_set k v d = d @ [(k, v)]"
  by (induction d) auto

lemma foldl_dict_set_fresh:
  "distinct (map key xs) \<Longrightarrow> set (map key xs) \<inter> set (map fst d) = {}
   \<Longrightarrow> foldl (\<lambda>sd x. dict_set (key x) (x, txt_of x) sd) d xs
       = d @ map (\<lambda>x. (key x, x, txt_of x)) xs"
proof (induction xs arbitrary: d)
  case Nil
  then show ?case by simp
next
  case (Cons x xs)
  from Cons.prems have fresh: "key x \<notin> set (map fst d)" by auto
  have step: "dict_set (key x) (x, txt_of x) d = d @ [(key x, x, txt_of x)]"
    by (rule dict_set_fresh[OF fresh])
  from Cons.prems have d1: "distinct (map key xs)" by simp
  from Cons.prems have d2: "set (map key xs) \<inter> set (map fst (d @ [(key x, x, txt_of x)])) = {}"
    by auto
  from Cons.IH[OF d1 d2] show ?case by (simp add: step)
qed

lemma faq_search_data_distinct: "distinct (map fst (faq_search_data items))"
  unfolding faq_search_data_def by (rule foldl_dict_set_distinct) simp

lemma document_search_data_distinct: "distinct (map fst (document_search_data docs))"
  unfolding document_search_data_def by (rule foldl_dict_set_distinct) simp

lemma faq_search_data_map:
  "distinct (map f_id items)
   \<Longrightarrow> faq_search_data items = map (\<lambda>x. (f_id x, x, faq_search_text x)) items"
  unfolding faq_search_data_def
  using foldl_dict_set_fresh[of f_id items "[]" faq_search_text] by simp

lemma document_search_data_map:
  "distinct (map d_id docs)
   \<Longrightarrow> document_search_data docs = map (\<lambda>x. (d_id x, x, document_search_text x)) docs"
  unfolding document_search_data_def
  using foldl_dict_set_fresh[of d_id docs "[]" document_search_text] by simp

lemma ranked_Nil: "ranked n t [] = []"
  by (simp add: ranked_def sort_desc_def)

lemma faq_search_ranked:
  "faq_search scorer rows q n t
   = Inr (ranked n t (scored_pool scorer q (faq_search_data (filter f_is_active rows))))"
proof (cases "filter f_is_active rows = []")
  case True
  then show ?thesis
    by (simp add: faq_search_def faq_search_data_def scored_pool_def ranked_Nil)
next
  case False
  then show ?thesis
    by (simp add: faq_search_def Let_def rank_matches_ranked[OF faq_search_data_distinct])
qed

lemma document_search_ranked:
  "document_search scorer rows q n t
   = Inr (ranked n t (scored_pool scorer q (document_search_data (filter d_is_active rows))))"
proof (cases "filter d_is_active rows = []")
  case True
  then show ?thesis
    by (simp add: document_search_def document_search_data_def scored_pool_def ranked_Nil)
next
  case False
  then show ?thesis
    by (simp add: document_search_def Let_def
        rank_matches_ranked[OF document_search_data_distinct])
qed

lemma ranked_length: "length (ranked n t p) \<le> n"
  by (simp add: ranked_def)

lemma ranked_sorted: "sorted_wrt (\<lambda>a b. snd b \<le> snd a) (ranked n t p)"
  unfolding ranked_def
  by (intro sorted_desc_take sorted_wrt_filter sorted_sort_desc)

lemma ranked_threshold: "list_all (\<lambda>c. t \<le> snd c) (ranked n t p)"
proof -
  have "set (ranked n t p) \<subseteq> set (filter (\<lambda>c. t \<le> snd c) (sort_desc snd p))"
    unfolding ranked_def by (rule set_take_subset)
  then show ?thesis by (auto simp add: list_all_iff)
qed

lemma ranked_subset: "set (ranked n t p) \<subseteq> set p"
proof -
  have "set (ranked n t p) \<subseteq> set (filter (\<lambda>c. t \<le> snd c) (sort_desc snd p))"
    unfolding ranked_def by (rule set_take_subset)
  then show ?thesis by (auto simp add: set_sort_desc)
qed

lemma ranked_stable:
  fixes p :: "('a \<times> 's::linorder) list"
  shows "\<exists>zs. filter (\<lambda>c. snd c = k) p = filter (\<lambda>c. snd c = k) (ranked n t p) @ zs"
proof (cases "t \<le> k")
  case True
  let ?F = "filter (\<lambda>c. t \<le> snd c) (sort_desc snd p)"
  have "filter (\<lambda>c. snd c = k) ?F = filter (\<lambda>c. snd c = k) (sort_desc snd p)"
    using True by (auto intro: filter_cong)
  also have "\<dots> = filter (\<lambda>c. snd c = k) p" by (rule sort_desc_stable)
  finally have e: "filter (\<lambda>c. snd c = k) p = filter (\<lambda>c. snd c = k) ?F" by simp
  have "filter (\<lambda>c. snd c = k) ?F
        = filter (\<lambda>c. snd c = k) (take n ?F) @ filter (\<lambda>c. snd c = k) (drop n ?F)"
    by (simp only: filter_append[symmetric] append_take_drop_id)
  with e show ?thesis by (auto simp add: ranked_def)
next
  case False
  have "\<forall>c\<in>set (ranked n t p). snd c \<noteq> k"
    using ranked_threshold[of t n p] False by (auto simp add: list_all_iff)
  then have "filter (\<lambda>c. snd c = k) (ranked n t p) = []" by (simp add: filter_empty_conv)
  then show ?thesis by simp
qed

lemma ranked_best:
  fixes p :: "('a \<times> 's::linorder) list"
  assumes c: "c \<in> set p" "c \<notin> set (ranked n t p)" and x: "x \<in> set (ranked n t p)"
  shows "snd c \<le> snd x"
proof (cases "t \<le> snd c")
  case False
  from x ranked_threshold[of t n p] have "t \<le> snd x" by (auto simp add: list_all_iff)
  with False show ?thesis by auto
next
  case True
  let ?F = "filter (\<lambda>c. t \<le> snd c) (sort_desc snd p)"
  from c(1) True have "c \<in> set ?F" by (simp add: set_sort_desc)
  then have "c \<in> set (take n ?F) \<union> set (drop n ?F)"
    by (metis append_take_drop_id set_append)
  moreover from c(2) have "c \<notin> set (take n ?F)" by (simp add: ranked_def)
  ultimately have cd: "c \<in> set (drop n ?F)" by blast
  from x have xt: "x \<in> set (take n ?F)" by (simp add: ranked_def)
  have "sorted_wrt (\<lambda>a b. snd b \<le> snd a) ?F"
    by (intro sorted_wrt_filter sorted_sort_desc)
  then have "sorted_wrt (\<lambda>a b. snd b \<le> snd a) (take n ?F @ drop n ?F)" by simp
  then have "\<forall>a\<in>set (take n ?F). \<forall>b\<in>set (drop n ?F). snd b \<le> snd a"
    by (simp only: sorted_wrt_append) blast
  with cd xt show ?thesis by blast
qed

lemma process_extract_length: "length (process_extract scorer q texts m) \<le> m"
  by (simp add: process_extract_def)

text \<open>
  Claim C3. Both searches ask the scorer for \<open>2 * limit\<close> raw candidates, drop those
  below the threshold and return, without an exception, exactly the ranking the
  specification words: at most \<open>limit\<close> candidates, by descending score, equal scores in
  the order of the candidate pool (the active rows, in the order of the query), every
  one at or above the threshold, and no candidate left out scores higher than one
  returned. Fetching \<open>2 * limit\<close> before filtering loses no candidate of that ranking.
\<close>

theorem search_returns_ranked_candidates:
  fixes scorer :: "string \<Rightarrow> string \<Rightarrow> 's::linorder"
    and p :: "('a \<times> 's) list"
    and sd :: "('k \<times> 'b \<times> string) list"
  shows
  "faq_search scorer rows q n t
     = Inr (ranked n t (scored_pool scorer q (faq_search_data (filter f_is_active rows))))
   \<and> document_search scorer docs q n t
     = Inr (ranked n t (scored_pool scorer q (document_search_data (filter d_is_active docs))))
   \<and> (distinct (map f_id rows) \<longrightarrow>
        scored_pool scorer q (faq_search_data (filter f_is_active rows))
        = map (\<lambda>item. (item, scorer q (faq_search_text item))) (filter f_is_active rows))
   \<and> (distinct (map d_id docs) \<longrightarrow>
        scored_pool scorer q (document_search_data (filter d_is_active docs))
        = map (\<lambda>doc. (doc, scorer q (document_search_text doc))) (filter d_is_active docs))
   \<and> rank_matches scorer sd q n t
     = (case collect_results t sd
               (process_extract scorer q (map (\<lambda>(key, data). (key, snd data)) sd) (2 * n)) of
          Inl e \<Rightarrow> Inl e
        | Inr results \<Rightarrow> Inr (take n (sort_desc snd results)))
   \<and> length (process_extract scorer q (map (\<lambda>(key, data). (key, snd data)) sd) (2 * n)) \<le> 2 * n
   \<and> length (ranked n t p) \<le> n
   \<and> sorted_wrt (\<lambda>a b. snd b \<le> snd a) (ranked n t p)
   \<and> list_all (\<lambda>c. t \<le> snd c) (ranked n t p)
   \<and> set (ranked n t p) \<subseteq> set p
   \<and> (\<exists>zs. filter (\<lambda>c. snd c = k) p = filter (\<lambda>c. snd c = k) (ranked n t p) @ zs)
   \<and> (c \<in> set p \<and> c \<notin> set (ranked n t p) \<and> x \<in> set (ranked n t p) \<longrightarrow> snd c \<le> snd x)"
proof -
  have fp: "distinct (map f_id rows) \<longrightarrow>
        scored_pool scorer q (faq_search_data (filter f_is_active rows))
        = map (\<lambda>item. (item, scorer q (faq_search_text item))) (filter f_is_active rows)"
    by (simp add: faq_search_data_map distinct_map_filter scored_pool_def comp_def)
  have dp: "distinct (map d_id docs) \<longrightarrow>
        scored_pool scorer q (document_search_data (filter d_is_active docs))
        = map (\<lambda>doc. (doc, scorer q (document_search_text doc))) (filter d_is_active docs)"
    by (simp add: document_search_data_map distinct_map_filter scored_pool_def comp_def)
  have rq: "rank_matches scorer sd q n t
     = (case collect_results t sd
               (process_extract scorer q (map (\<lambda>(key, data). (key, snd data)) sd) (2 * n)) of
          Inl e \<Rightarrow> Inl e
        | Inr results \<Rightarrow> Inr (take n (sort_desc snd results)))"
    by (simp add: rank_matches_def Let_def mult.commute)
  have best: "c \<in> set p \<and> c \<notin> set (ranked n t p) \<and> x \<in> set (ranked n t p)
      \<longrightarrow> snd c \<le> snd x"
    using ranked_best[of c p n t x] by blast
  from faq_search_ranked[of scorer rows q n t] document_search_ranked[of scorer docs q n t]
    fp dp rq process_extract_length[of scorer q _ "2 * n"]
    ranked_length[of n t p] ranked_sorted[of n t p] ranked_threshold[of t n p]
    ranked_subset[of n t p] ranked_stable[of k p n t] best
  show ?thesis by blast
qed


theorem search_returns_ranked_candidates_witness:
  "distinct (map f_id sample_rows)
   \<and> faq_search length_scorer sample_rows ''q'' 2 3
       = Inr [(sample_item 1 ''abc'' True 5, 3), (sample_item 4 ''xyz'' True 0, 3)]
   \<and> distinct (map d_id [sample_document 1 ''form'', sample_document 2 ''application''])
   \<and> document_search length_scorer
         [sample_document 1 ''form'', sample_document 2 ''application''] ''q'' 1 4
       = Inr [(sample_document 2 ''application'', 11)]
   \<and> (sample_item 2 ''ab'' True 0, 2)
       \<in> set (map (\<lambda>item. (item, length_scorer ''q'' (faq_search_text item)))
                (filter f_is_active sample_rows))
   \<and> (sample_item 2 ''ab'' True 0, 2)
       \<notin> set (ranked 2 3 (map (\<lambda>item. (item, length_scorer ''q'' (faq_search_text item)))
                             (filter f_is_active sample_rows)))
   \<and> (sample_item 4 ''xyz'' True 0, 3)
       \<in> set (ranked 2 3 (map (\<lambda>item. (item, length_scorer ''q'' (faq_search_text item)))
                             (filter f_is_active sample_rows)))
   \<and> snd (sample_item 2 ''ab'' True 0, 2::nat) \<le> snd (sample_item 4 ''xyz'' True 0, 3::nat)"
proof -
  let ?pool = "map (\<lambda>item. (item, length_scorer ''q'' (faq_search_text item)))
                (filter f_is_active sample_rows)"
  let ?docs = "[sample_document 1 ''form'', sample_document 2 ''application'']"
  let ?dpool = "map (\<lambda>doc. (doc, length_scorer ''q'' (document_search_text doc)))
                (filter d_is_active ?docs)"
  let ?c = "(sample_item 2 ''ab'' True 0, 2::nat)"
  let ?x = "(sample_item 4 ''xyz'' True 0, 3::nat)"
  note t = search_returns_ranked_candidates
    [of length_scorer sample_rows "''q''" 2 3 "[]" "[]::(int \<times> FAQItem \<times> string) list"
        ?pool 3 ?c ?x]
  note u = search_returns_ranked_candidates
    [of length_scorer "[]" "''q''" 1 4 ?docs "[]::(int \<times> FAQItem \<times> string) list"
        ?dpool 3 "(sample_document 1 ''form'', 4)" "(sample_document 2 ''application'', 11)"]
  have d: "distinct (map f_id sample_rows)"
    by (simp add: sample_rows_def sample_item_def)
  have dd: "distinct (map d_id ?docs)" by (simp add: sample_document_def)
  have r: "ranked 2 3 ?pool = [(sample_item 1 ''abc'' True 5, 3), ?x]"
    by (simp add: ranked_def sort_desc_def sample_rows_def sample_item_def
        faq_search_text_def length_scorer_def)
  have dr: "ranked 1 4 ?dpool = [(sample_document 2 ''application'', 11)]"
    by (simp add: ranked_def sort_desc_def sample_document_def
        document_search_text_def length_scorer_def)
  have cp: "?c \<in> set ?pool"
    by (simp add: sample_rows_def sample_item_def faq_search_text_def length_scorer_def)
  have cn: "?c \<notin> set (ranked 2 3 ?pool)"
    by (simp add: r sample_item_def)
  have xr: "?x \<in> set (ranked 2 3 ?pool)" by (simp add: r)
  from t d have "scored_pool length_scorer ''q'' (faq_search_data (filter f_is_active sample_rows))
      = ?pool" by blast
  with t have "faq_search length_scorer sample_rows ''q'' 2 3 = Inr (ranked 2 3 ?pool)"
    by simp
  with r have f: "faq_search length_scorer sample_rows ''q'' 2 3
       = Inr [(sample_item 1 ''abc'' True 5, 3), ?x]" by simp
  from u dd have "scored_pool length_scorer ''q'' (document_search_data (filter d_is_active ?docs))
      = ?dpool" by blast
  with u have "document_search length_scorer ?docs ''q'' 1 4 = Inr (ranked 1 4 ?dpool)"
    by simp
  with dr have g: "document_search length_scorer ?docs ''q'' 1 4
       = Inr [(sample_document 2 ''application'', 11)]" by simp
  from t cp cn xr have le: "snd ?c \<le> snd ?x" by blast
  from d f dd g cp cn xr le show ?thesis by blast
qed

end
